theory Spec2Isabelle
  imports Main "HOL-Library.Word" "HOL-Library.Sublist"
begin

section \<open>JavaScript values used by the router\<close>

text \<open>
  A JavaScript string is a sequence of UTF-16 code units, and \<open>length\<close>, \<open>slice\<close>,
  \<open>includes\<close> and the regular expressions of the sources (none has the \<open>u\<close> flag) all
  work on code units. Literals of the sources are ASCII and are written \<open>js ''...''\<close>.
\<close>

type_synonym jsstring = "16 word list"

definition js :: "string \<Rightarrow> jsstring" where
  "js s = map of_char s"

text \<open>
  The values that reach \<open>JSON.stringify\<close> or an \<open>unknown\<close> parameter. Numbers are kept
  as integers: no claim depends on a fractional number. \<open>JFile n\<close> is a \<open>File\<close> or
  \<open>Blob\<close> of \<open>n\<close> bytes.
\<close>

datatype jsval =
    JUndefined
  | JNull
  | JBool bool
  | JNum int
  | JStr jsstring
  | JArr "jsval list"
  | JObj "(jsstring \<times> jsval) list"
  | JFile nat

text \<open>\<open>String.prototype.includes\<close>: does the pattern occur as a contiguous run?\<close>

fun includesStr :: "'a list \<Rightarrow> 'a list \<Rightarrow> bool" where
  "includesStr [] pat = (pat = [])"
| "includesStr (x # xs) pat = (prefix pat (x # xs) \<or> includesStr xs pat)"

text \<open>
  \<open>String.prototype.toLowerCase\<close> on the ASCII letters. The built-in also maps letters
  outside ASCII; none of them is lowered to one of the ASCII characters the sources
  search for after lowering (\<open>%\<close>, \<open>2\<close>, \<open>5\<close>, \<open>c\<close>, \<open>e\<close>, \<open>f\<close>), so those code units
  are left as they are.
\<close>

definition lowerUnit :: "16 word \<Rightarrow> 16 word" where
  "lowerUnit c = (if 65 \<le> c \<and> c \<le> 90 then c + 32 else c)"

definition toLowerCase :: "jsstring \<Rightarrow> jsstring" where
  "toLowerCase s = map lowerUnit s"

definition isAsciiStr :: "jsstring \<Rightarrow> bool" where
  "isAsciiStr s = (\<forall>c \<in> set s. c < 128)"

section \<open>security/sanitizer.ts: sanitizeErrorMessage\<close>

definition MAX_ERROR_MESSAGE_LENGTH :: nat where
  "MAX_ERROR_MESSAGE_LENGTH = 500"

text \<open>
  \<open>message.normalize("NFKC")\<close> is table driven. A string of ASCII code units is its own
  NFKC form; for every other string the result is whatever the parameter \<open>nfkc\<close> (the
  Unicode tables) says, and the theorems hold for every such parameter.
\<close>

definition normalizeNFKC :: "(jsstring \<Rightarrow> jsstring) \<Rightarrow> jsstring \<Rightarrow> jsstring" where
  "normalizeNFKC nfkc s = (if isAsciiStr s then s else nfkc s)"

text \<open>
  \<open>stripControlCharacters\<close> walks the string by code point and tests the first code
  unit of each; the second unit of a surrogate pair is never a control code, so the
  loop keeps exactly the code units outside \<open>0x00-0x1f\<close> and \<open>0x7f-0x9f\<close>.
\<close>

definition isControlCharacter :: "16 word \<Rightarrow> bool" where
  "isControlCharacter code = ((0x00 \<le> code \<and> code \<le> 0x1f) \<or> (0x7f \<le> code \<and> code \<le> 0x9f))"

definition stripControlCharacters :: "jsstring \<Rightarrow> jsstring" where
  "stripControlCharacters v = filter (\<lambda>c. \<not> isControlCharacter c) v"

text \<open>The class \<^verbatim>\<open>[\u200B-\u200D\uFEFF]\<close>, every match replaced by the empty string.\<close>

definition isZeroWidth :: "16 word \<Rightarrow> bool" where
  "isZeroWidth c = ((0x200B \<le> c \<and> c \<le> 0x200D) \<or> c = 0xFEFF)"

definition stripZeroWidth :: "jsstring \<Rightarrow> jsstring" where
  "stripZeroWidth s = filter (\<lambda>c. \<not> isZeroWidth c) s"

text \<open>
  \<open>s.replace(/pat/g, rep)\<close> for a literal, non-empty pattern: matches are found left to
  right and do not overlap. \<open>eq\<close> compares a code unit of the subject with one of the
  pattern (equality, or equality after lowering for the \<open>i\<close> flag).
\<close>

fun matchesAt :: "('a \<Rightarrow> 'a \<Rightarrow> bool) \<Rightarrow> 'a list \<Rightarrow> 'a list \<Rightarrow> bool" where
  "matchesAt eq [] s = True"
| "matchesAt eq (p # ps) [] = False"
| "matchesAt eq (p # ps) (c # cs) = (eq c p \<and> matchesAt eq ps cs)"

function replaceAllBy :: "('a \<Rightarrow> 'a \<Rightarrow> bool) \<Rightarrow> 'a list \<Rightarrow> 'a list \<Rightarrow> 'a list \<Rightarrow> 'a list" where
  "replaceAllBy eq pat rep [] = []"
| "replaceAllBy eq pat rep (c # cs) =
     (if pat \<noteq> [] \<and> matchesAt eq pat (c # cs)
      then rep @ replaceAllBy eq pat rep (drop (length pat) (c # cs))
      else c # replaceAllBy eq pat rep cs)"
  by pat_completeness auto
termination
  by (relation "measure (\<lambda>(eq, pat, rep, s). length s)") (auto simp: neq_Nil_conv)

definition replaceAll :: "jsstring \<Rightarrow> jsstring \<Rightarrow> jsstring \<Rightarrow> jsstring" where
  "replaceAll pat rep s = replaceAllBy (=) pat rep s"

definition replaceAllCI :: "jsstring \<Rightarrow> jsstring \<Rightarrow> jsstring \<Rightarrow> jsstring" where
  "replaceAllCI pat rep s = replaceAllBy (\<lambda>c p. lowerUnit c = lowerUnit p) pat rep s"

definition removeDangerousProtocols :: "jsstring \<Rightarrow> jsstring" where
  "removeDangerousProtocols s =
     replaceAllCI (js ''file:'') []
       (replaceAllCI (js ''vbscript:'') []
         (replaceAllCI (js ''data:'') []
           (replaceAllCI (js ''javascript:'') [] s)))"

definition htmlEscape :: "jsstring \<Rightarrow> jsstring" where
  "htmlEscape s =
     replaceAll (js ''/'') (js ''&#x2F;'')
       (replaceAll (js [CHR 0x27]) (js ''&#x27;'')
         (replaceAll (js [CHR 0x22]) (js ''&quot;'')
           (replaceAll (js ''>'') (js ''&gt;'')
             (replaceAll (js ''<'') (js ''&lt;'')
               (replaceAll (js ''&'') (js ''&amp;'') s)))))"

fun sanitizeErrorMessage :: "(jsstring \<Rightarrow> jsstring) \<Rightarrow> jsval \<Rightarrow> jsstring" where
  "sanitizeErrorMessage nfkc (JStr message) =
     take MAX_ERROR_MESSAGE_LENGTH
       (htmlEscape (removeDangerousProtocols (stripZeroWidth
          (stripControlCharacters (normalizeNFKC nfkc message)))))"
| "sanitizeErrorMessage nfkc _ = js ''Internal server error''"


section \<open>Responses and headers\<close>

text \<open>
  A plain object with string values (\<open>Record<string, string>\<close>): the entries in the
  order they were written, keys unique. \<open>objSet\<close> is the assignment \<open>o[k] = v\<close>, which is
  also what a spread followed by a property does. JavaScript enumerates the keys that are
  array indices first, in numeric order; the list does not follow that, and what is
  proved about an object goes by the lookup of a key, never by the order of the list.
\<close>

type_synonym jsrecord = "(jsstring \<times> jsstring) list"

fun objSet :: "('k \<times> 'v) list \<Rightarrow> 'k \<Rightarrow> 'v \<Rightarrow> ('k \<times> 'v) list" where
  "objSet [] k v = [(k, v)]"
| "objSet ((k', v') # rest) k v = (if k' = k then (k, v) # rest else (k', v') # objSet rest k v)"

definition objAssign :: "('k \<times> 'v) list \<Rightarrow> ('k \<times> 'v) list \<Rightarrow> ('k \<times> 'v) list" where
  "objAssign target source = fold (\<lambda>(k, v) acc. objSet acc k v) source target"

text \<open>
  The \<open>Headers\<close> of a \<open>Response\<close>: names compare without regard to ASCII case, so they are
  stored lowered. \<open>append\<close> joins the values of a name that is already there with a comma
  and a space, \<open>set\<close> replaces them.
\<close>

type_synonym headers = "(jsstring \<times> jsstring) list"

definition headersGet :: "headers \<Rightarrow> jsstring \<Rightarrow> jsstring option" where
  "headersGet hs name = map_of hs (toLowerCase name)"

definition headersSet :: "headers \<Rightarrow> jsstring \<Rightarrow> jsstring \<Rightarrow> headers" where
  "headersSet hs name v = objSet hs (toLowerCase name) v"

definition headersAppend :: "headers \<Rightarrow> jsstring \<Rightarrow> jsstring \<Rightarrow> headers" where
  "headersAppend hs name v =
     (case headersGet hs name of
        None \<Rightarrow> hs @ [(toLowerCase name, v)]
      | Some old \<Rightarrow> objSet hs (toLowerCase name) (old @ js '', '' @ v))"

definition newHeaders :: "jsrecord \<Rightarrow> headers" where
  "newHeaders init = fold (\<lambda>(k, v) hs. headersAppend hs k v) init []"

text \<open>
  A \<open>Response\<close>. The body is the value whose \<open>JSON.stringify\<close> text was passed to the
  constructor, or \<open>None\<close> for a \<open>null\<close> body. The constructor adds a \<open>Content-Type\<close> of
  \<open>text/plain;charset=UTF-8\<close> to a response with a string body and no such header.
\<close>

record response =
  status :: nat
  headers :: headers
  body :: "jsval option"

definition newResponse :: "jsval option \<Rightarrow> nat \<Rightarrow> jsrecord \<Rightarrow> response" where
  "newResponse b st init =
     (let hs = newHeaders init in
      \<lparr> status = st,
        headers = (if b \<noteq> None \<and> headersGet hs (js ''Content-Type'') = None
                   then headersAppend hs (js ''Content-Type'') (js ''text/plain;charset=UTF-8'')
                   else hs),
        body = b \<rparr>)"

section \<open>errors/http-errors.ts\<close>

definition createErrorResponse ::
  "(jsstring \<Rightarrow> jsstring) \<Rightarrow> jsstring \<Rightarrow> nat \<Rightarrow> jsval option \<Rightarrow> response" where
  "createErrorResponse nfkc message st cause =
     (let sanitized = sanitizeErrorMessage nfkc (JStr message);
          b = (case cause of
                 None \<Rightarrow> [(js ''error'', JStr sanitized)]
               | Some c \<Rightarrow> [(js ''error'', JStr sanitized), (js ''cause'', c)])
      in newResponse (Some (JObj b)) st
           [(js ''Content-Type'', js ''application/json''),
            (js ''X-Content-Type-Options'', js ''nosniff'')])"

definition unauthorized :: "(jsstring \<Rightarrow> jsstring) \<Rightarrow> jsstring \<Rightarrow> response" where
  "unauthorized nfkc message = createErrorResponse nfkc message 401 None"

definition forbidden :: "(jsstring \<Rightarrow> jsstring) \<Rightarrow> jsstring \<Rightarrow> response" where
  "forbidden nfkc message = createErrorResponse nfkc message 403 None"

section \<open>authentication/rbac.ts and the authenticator\<close>

fun checkRoles :: "'r \<Rightarrow> 'r list \<Rightarrow> bool" where
  "checkRoles userRole allowedRoles =
     (if length allowedRoles = 0 then False else userRole \<in> set allowedRoles)"

text \<open>
  \<open>AuthOptions\<close> and \<open>AuthResult\<close>; every field is optional, \<open>None\<close> is an absent one.
  The user is generic in the source, which reads only its \<open>role\<close> property: that property
  is \<open>undefined\<close>, \<open>null\<close> or a role. A \<open>user\<close> of \<open>None\<close> stands for every falsy value.
\<close>

datatype 'r jsrole = RoleUndefined | RoleNull | Role 'r

record 'r authUser =
  role :: "'r jsrole"

record 'r authOptions =
  allowedMethods :: "jsstring list option"
  requireServiceRole :: "bool option"
  bypassWithServiceRole :: "bool option"
  bypassWithAnonRole :: "bool option"
  requireUserAuth :: "bool option"
  requireRBAC :: "bool option"
  allowedRoles :: "'r list option"

record ('u, 'c) authResult =
  response :: "response option"
  supabaseClient :: "'c option"
  serviceRoleClient :: "'c option"
  user :: "'u option"
  serviceBypassed :: "bool option"

definition truthy :: "bool option \<Rightarrow> bool" where
  "truthy b = (b = Some True)"

definition onlyResponse :: "response \<Rightarrow> ('u, 'c) authResult" where
  "onlyResponse r =
     \<lparr> response = Some r, supabaseClient = None, serviceRoleClient = None,
       user = None, serviceBypassed = None \<rparr>"

definition validateAuthResult ::
  "(jsstring \<Rightarrow> jsstring) \<Rightarrow> (('r, 'm) authUser_scheme, 'c) authResult \<Rightarrow> 'r authOptions
     \<Rightarrow> (('r, 'm) authUser_scheme, 'c) authResult" where
  "validateAuthResult nfkc result options =
     (if response result \<noteq> None then result
      else if truthy (serviceBypassed result) then result
      else if truthy (requireUserAuth options) \<and> user result = None
        then onlyResponse (unauthorized nfkc (js ''User authentication required''))
      else if truthy (requireRBAC options) \<and> user result \<noteq> None then
        (case role (the (user result)) of
           RoleUndefined \<Rightarrow> onlyResponse (forbidden nfkc (js ''User role not found''))
         | RoleNull \<Rightarrow> onlyResponse (forbidden nfkc (js ''User role not found''))
         | Role userRole \<Rightarrow>
             (if allowedRoles options = None \<or> length (the (allowedRoles options)) = 0
                then onlyResponse (forbidden nfkc (js ''No roles configured for this route''))
              else if \<not> checkRoles userRole (the (allowedRoles options))
                then onlyResponse (forbidden nfkc (js ''Insufficient permissions''))
              else result))
      else result)"


section \<open>security/sanitizer.ts: parseQuerySafely\<close>

definition DANGEROUS_QUERY_KEYS :: "jsstring list" where
  "DANGEROUS_QUERY_KEYS = [js ''__proto__'', js ''constructor'', js ''prototype'']"

text \<open>
  An object with string values: its prototype and its own properties (in the order they
  were written; lookups are what the properties below speak of, not the order in which
  the keys are enumerated). \<open>Object.create(null)\<close> has no prototype; an object literal has
  \<open>Object.prototype\<close>, whose properties it inherits. The list is that of the runtime of
  the repository, Deno, which has no \<open>__proto__\<close> accessor on \<open>Object.prototype\<close>.
\<close>

datatype jsprototype = NullPrototype | ObjectPrototype

record jsobject =
  prototypeOf :: jsprototype
  properties :: jsrecord

definition objectPrototypeKeys :: "jsstring list" where
  "objectPrototypeKeys =
     [js ''constructor'', js ''__defineGetter__'', js ''__defineSetter__'',
      js ''hasOwnProperty'', js ''__lookupGetter__'', js ''__lookupSetter__'',
      js ''isPrototypeOf'', js ''propertyIsEnumerable'', js ''toString'', js ''valueOf'',
      js ''toLocaleString'']"

text \<open>The operator \<open>in\<close>: an own property, or one of the prototype.\<close>

definition inOperator :: "jsstring \<Rightarrow> jsobject \<Rightarrow> bool" where
  "inOperator key obj =
     (key \<in> fst ` set (properties obj) \<or>
      (prototypeOf obj = ObjectPrototype \<and> key \<in> set objectPrototypeKeys))"

text \<open>
  The argument is a \<open>URLSearchParams\<close>: the key/value pairs of the query in their order,
  duplicates included, which is what \<open>forEach\<close> visits. The result starts as
  \<open>Object.create(null)\<close>.
\<close>

definition parseQueryEntry :: "jsstring \<times> jsstring \<Rightarrow> jsobject \<Rightarrow> jsobject" where
  "parseQueryEntry entry query =
     (let key = fst entry; v = snd entry in
      if inOperator key query then query
      else if key \<in> set DANGEROUS_QUERY_KEYS then query
      else if includesStr key (js ''['') \<or> includesStr key (js '']'') then query
      else if prefix (js ''_'') key then query
      else query \<lparr> properties := objSet (properties query) key v \<rparr>)"

definition parseQuerySafely :: "(jsstring \<times> jsstring) list \<Rightarrow> jsobject" where
  "parseQuerySafely searchParams =
     fold parseQueryEntry searchParams \<lparr> prototypeOf = NullPrototype, properties = [] \<rparr>"

text \<open>The keys that the three guards of the loop body skip.\<close>

definition blockedKey :: "jsstring \<Rightarrow> bool" where
  "blockedKey k = (k \<in> set DANGEROUS_QUERY_KEYS \<or> includesStr k (js ''['') \<or>
     includesStr k (js '']'') \<or> prefix (js ''_'') k)"


section \<open>routing/params-validator.ts and routing/compiler.ts\<close>

text \<open>
  A function that throws \<open>new Error(message)\<close> returns \<open>Inl message\<close>; a normal return
  is \<open>Inr\<close>.
\<close>

definition MAX_PATH_PARAM_LENGTH :: nat where
  "MAX_PATH_PARAM_LENGTH = 200"

text \<open>The source text \<^verbatim>\<open>([a-zA-Z0-9_%.='\-]{1,200})\<close> of the capture group.\<close>

definition SAFE_PATH_PARAM_PATTERN :: jsstring where
  "SAFE_PATH_PARAM_PATTERN =
     js ''([a-zA-Z0-9_%.='' @ js [CHR 0x27, CHR 0x5C] @ js ''-]{1,200})''"

text \<open>The classes \<^verbatim>\<open>[a-zA-Z_]\<close> and \<^verbatim>\<open>[a-zA-Z0-9_]\<close>.\<close>

definition isNameStart :: "16 word \<Rightarrow> bool" where
  "isNameStart c = ((0x61 \<le> c \<and> c \<le> 0x7A) \<or> (0x41 \<le> c \<and> c \<le> 0x5A) \<or> c = 0x5F)"

definition isNameChar :: "16 word \<Rightarrow> bool" where
  "isNameChar c = (isNameStart c \<or> (0x30 \<le> c \<and> c \<le> 0x39))"

text \<open>\<open>PATH_PARAM_NAME_REGEX.test(name)\<close> with \<^verbatim>\<open>/^[a-zA-Z_][a-zA-Z0-9_]*$/\<close>.\<close>

fun isValidParamName :: "jsstring \<Rightarrow> bool" where
  "isValidParamName [] = False"
| "isValidParamName (c # cs) = (isNameStart c \<and> list_all isNameChar cs)"

definition validatePathSafety :: "jsstring \<Rightarrow> jsstring + unit" where
  "validatePathSafety path =
     (if includesStr path (js ''..'')
        then Inl (js ''Path traversal attempt detected in route path'')
      else if includesStr (toLowerCase path) (js ''%2e%2e'')
        then Inl (js ''Encoded path traversal detected in route path'')
      else if includesStr path [0]
        then Inl (js ''Null byte detected in route path'')
      else Inr ())"

text \<open>
  \<open>path.matchAll(/:([a-zA-Z_][a-zA-Z0-9_]*)/g)\<close>: the first capture group of every match,
  left to right. A match starts at a colon that is followed by a name start and takes the
  longest run of name characters; the search goes on behind the match.
\<close>

function paramMatches :: "jsstring \<Rightarrow> jsstring list" where
  "paramMatches [] = []"
| "paramMatches (c # cs) =
     (if c = 0x3A \<and> cs \<noteq> [] \<and> isNameStart (hd cs)
      then takeWhile isNameChar cs # paramMatches (dropWhile isNameChar cs)
      else paramMatches cs)"
  by pat_completeness auto
termination
  by (relation "measure length") (auto simp: length_dropWhile_le less_Suc_eq_le)

fun extractParamLoop :: "jsstring list \<Rightarrow> jsstring list \<Rightarrow> jsstring + jsstring list" where
  "extractParamLoop [] params = Inr params"
| "extractParamLoop (paramName # rest) params =
     (if \<not> isValidParamName paramName
        then Inl (js ''Invalid parameter name: '' @ paramName)
      else if paramName \<in> set params
        then Inl (js ''Duplicate parameter name: '' @ paramName)
      else extractParamLoop rest (params @ [paramName]))"

definition extractParamNames :: "jsstring \<Rightarrow> jsstring + jsstring list" where
  "extractParamNames path = extractParamLoop (paramMatches path) []"

text \<open>\<open>path.replace(/:([a-zA-Z_][a-zA-Z0-9_]*)/g, () => SAFE_PATH_PARAM_PATTERN)\<close>.\<close>

function replaceParams :: "jsstring \<Rightarrow> jsstring" where
  "replaceParams [] = []"
| "replaceParams (c # cs) =
     (if c = 0x3A \<and> cs \<noteq> [] \<and> isNameStart (hd cs)
      then SAFE_PATH_PARAM_PATTERN @ replaceParams (dropWhile isNameChar cs)
      else c # replaceParams cs)"
  by pat_completeness auto
termination
  by (relation "measure length") (auto simp: length_dropWhile_le less_Suc_eq_le)

text \<open>
  The compiled route keeps the source text of the regular expression, \<open>^\<close> and \<open>$\<close>
  around the rewritten path. The \<open>RegExp\<close> constructor is not modelled: for a path
  whose text is not an expression, such as \<open>/a(b\<close>, the source throws a \<open>SyntaxError\<close>
  where this function returns the text. What is proved below about a successful
  compilation is about paths whose text is an expression (each example is one); what is
  proved about a failure holds of the source as well, which only fails more often.
\<close>

record compiledPath =
  regex :: jsstring
  params :: "jsstring list"

definition compileRoute :: "jsstring \<Rightarrow> jsstring + compiledPath" where
  "compileRoute path =
     (case validatePathSafety path of
        Inl e \<Rightarrow> Inl e
      | Inr _ \<Rightarrow>
          (case extractParamNames path of
             Inl e \<Rightarrow> Inl e
           | Inr ps \<Rightarrow>
               Inr \<lparr> regex = js ''^'' @ replaceParams path @ js ''$'', params = ps \<rparr>))"

section \<open>security/sanitizer.ts: sanitizePathParam\<close>

text \<open>
  The built-in \<open>decodeURIComponent\<close>, after the \<open>Decode\<close> operation of ECMAScript with
  an empty reserved set: a code unit other than \<open>%\<close> is copied; \<open>%\<close> must be followed by
  two hexadecimal digits, which give an octet; an octet below \<open>0x80\<close> is a code unit, a
  larger one must start a well-formed UTF-8 sequence whose further octets are escaped as
  well, and the code point of the sequence is written in UTF-16. Everything else is a
  \<open>URIError\<close>, here \<open>None\<close>.
\<close>

definition hexVal :: "16 word \<Rightarrow> nat option" where
  "hexVal c =
     (if 0x30 \<le> c \<and> c \<le> 0x39 then Some (unat c - 0x30)
      else if 0x41 \<le> c \<and> c \<le> 0x46 then Some (unat c - 0x41 + 10)
      else if 0x61 \<le> c \<and> c \<le> 0x66 then Some (unat c - 0x61 + 10)
      else None)"

fun readOctet :: "jsstring \<Rightarrow> nat option" where
  "readOctet (p # h # l # rest) =
     (if p = 0x25 then
        (case hexVal h of
           None \<Rightarrow> None
         | Some a \<Rightarrow> (case hexVal l of None \<Rightarrow> None | Some b \<Rightarrow> Some (16 * a + b)))
      else None)"
| "readOctet _ = None"

fun readContinuation :: "nat \<Rightarrow> jsstring \<Rightarrow> nat list option" where
  "readContinuation 0 s = Some []"
| "readContinuation (Suc k) s =
     (case readOctet s of
        None \<Rightarrow> None
      | Some b \<Rightarrow>
          if b div 64 \<noteq> 2 then None
          else map_option ((#) b) (readContinuation k (drop 3 s)))"

definition sequenceLength :: "nat \<Rightarrow> nat" where
  "sequenceLength b =
     (if 0xC0 \<le> b \<and> b \<le> 0xDF then 2
      else if 0xE0 \<le> b \<and> b \<le> 0xEF then 3
      else if 0xF0 \<le> b \<and> b \<le> 0xF7 then 4
      else 0)"

definition codePointOf :: "nat \<Rightarrow> nat \<Rightarrow> nat list \<Rightarrow> nat" where
  "codePointOf n b conts = foldl (\<lambda>v c. v * 64 + c mod 64) (b mod 2 ^ (7 - n)) conts"

definition wellFormedCodePoint :: "nat \<Rightarrow> nat \<Rightarrow> bool" where
  "wellFormedCodePoint n v =
     (if n = 2 then 0x80 \<le> v
      else if n = 3 then 0x800 \<le> v \<and> \<not> (0xD800 \<le> v \<and> v \<le> 0xDFFF)
      else 0x10000 \<le> v \<and> v \<le> 0x10FFFF)"

definition utf16Units :: "nat \<Rightarrow> jsstring" where
  "utf16Units v =
     (if v < 0x10000 then [of_nat v]
      else [of_nat (0xD800 + (v - 0x10000) div 0x400), of_nat (0xDC00 + (v - 0x10000) mod 0x400)])"

function decodeURIComponent :: "jsstring \<Rightarrow> jsstring option" where
  "decodeURIComponent [] = Some []"
| "decodeURIComponent (c # cs) =
     (if c \<noteq> 0x25 then map_option ((#) c) (decodeURIComponent cs)
      else
        (case readOctet (c # cs) of
           None \<Rightarrow> None
         | Some b \<Rightarrow>
             if b < 0x80 then map_option ((#) (of_nat b)) (decodeURIComponent (drop 2 cs))
             else
               (let n = sequenceLength b in
                if n = 0 then None
                else
                  (case readContinuation (n - 1) (drop 2 cs) of
                     None \<Rightarrow> None
                   | Some conts \<Rightarrow>
                       (let v = codePointOf n b conts in
                        if \<not> wellFormedCodePoint n v then None
                        else map_option ((@) (utf16Units v))
                               (decodeURIComponent (drop (3 * n - 1) cs)))))))"
  by pat_completeness auto
termination
  by (relation "measure length") auto

definition sanitizePathParam :: "jsstring \<Rightarrow> jsstring + jsstring" where
  "sanitizePathParam v =
     (if length v > MAX_PATH_PARAM_LENGTH
        then Inl (js ''Invalid path parameter: exceeds maximum length of 200 characters'')
      else if includesStr (toLowerCase v) (js ''%2e%2e'') \<or>
              includesStr (toLowerCase v) (js ''%2f'') \<or> includesStr (toLowerCase v) (js ''%5c'')
        then Inl (js ''Invalid path parameter: encoded traversal detected'')
      else
        (case decodeURIComponent v of
           None \<Rightarrow> Inl (js ''Invalid URL encoding in path parameter'')
         | Some decoded \<Rightarrow>
             if length decoded > MAX_PATH_PARAM_LENGTH
               then Inl (js ''Invalid path parameter: decoded value exceeds maximum length of 200 characters'')
             else if includesStr decoded (js ''..'') \<or> includesStr decoded (js ''/'') \<or>
                     includesStr decoded (js [CHR 0x5C])
               then Inl (js ''Invalid path parameter: path traversal detected'')
             else if includesStr decoded [0]
               then Inl (js ''Invalid path parameter: null byte detected'')
             else Inr decoded))"

section \<open>validation/dto-validator.ts\<close>

text \<open>
  A schema is an opaque capability: \<open>safeParse\<close> gives the parsed value or a list of
  issues, each a path and a message.
\<close>

type_synonym issue = "jsstring list \<times> jsstring"
type_synonym schema = "jsval \<Rightarrow> issue list + jsval"

text \<open>What is thrown: a \<open>Response\<close>, or an \<open>Error\<close> with its message.\<close>

datatype thrown = ThrownResponse response | ThrownError jsstring

function showNat :: "nat \<Rightarrow> jsstring" where
  "showNat n = (if n < 10 then [of_nat (48 + n)] else showNat (n div 10) @ [of_nat (48 + n mod 10)])"
  by pat_completeness auto
termination
  by (relation "measure id") auto

declare showNat.simps [simp del]

definition beautifyZodErrors :: "issue list \<Rightarrow> jsval" where
  "beautifyZodErrors issues =
     JArr (map (\<lambda>(path, message).
                  JObj [(js ''path'', JArr (map JStr path)), (js ''message'', JStr message)])
               issues)"

fun isFile :: "jsval \<Rightarrow> bool" where
  "isFile (JFile bytes) = True"
| "isFile _ = False"

fun extractFileFields :: "jsval \<Rightarrow> (jsstring \<times> jsval) list" where
  "extractFileFields (JObj entries) = filter (\<lambda>(key, v). isFile v) entries"
| "extractFileFields (JArr vs) =
     filter (\<lambda>(key, v). isFile v) (zip (map showNat [0 ..< length vs]) vs)"
| "extractFileFields _ = []"

text \<open>
  An array index is the canonical decimal text of a number below \<open>2^32 - 1\<close>. Writing
  \<open>a[key] = v\<close> on an array sets that element, with holes up to it when the array is
  shorter (a hole reads as \<open>undefined\<close>); a key that is no index names a property that
  is not an element.
\<close>

definition indexValue :: "jsstring \<Rightarrow> nat" where
  "indexValue key = foldl (\<lambda>n c. 10 * n + (unat c - 0x30)) 0 key"

definition isArrayIndex :: "jsstring \<Rightarrow> bool" where
  "isArrayIndex key =
     (key \<noteq> [] \<and> list_all (\<lambda>c. 0x30 \<le> c \<and> c \<le> 0x39) key \<and>
      (length key = 1 \<or> hd key \<noteq> 0x30) \<and> indexValue key < 2 ^ 32 - 1)"

definition arraySet :: "jsval list \<Rightarrow> nat \<Rightarrow> jsval \<Rightarrow> jsval list" where
  "arraySet vs i v =
     (if i < length vs then vs[i := v]
      else vs @ replicate (i - length vs) JUndefined @ [v])"

text \<open>
  The files taken out before validation are written back into the validated value when
  it is an object or an array (of an array only the elements are kept here; a validated
  \<open>File\<close> is returned as it is).
\<close>

definition validateDTO :: "jsval \<Rightarrow> schema \<Rightarrow> jsval + jsval" where
  "validateDTO data sch =
     (let fileFields = extractFileFields data in
      case sch data of
        Inr validatedData \<Rightarrow>
          Inr (case validatedData of
                 JObj entries \<Rightarrow> JObj (objAssign entries fileFields)
               | JArr vs \<Rightarrow>
                   JArr (fold (\<lambda>(key, fileValue) acc.
                                 if isArrayIndex key then arraySet acc (indexValue key) fileValue
                                 else acc)
                              fileFields vs)
               | other \<Rightarrow> other)
      | Inl issues \<Rightarrow> Inl (beautifyZodErrors issues))"

definition DEFAULT_MAX_FILE_SIZE :: nat where
  "DEFAULT_MAX_FILE_SIZE = 10 * 1024 * 1024"

fun parseFormDataLoop ::
  "(jsstring \<times> jsval) list \<Rightarrow> nat \<Rightarrow> jsstring list \<Rightarrow> (jsstring \<times> jsval) list
     \<Rightarrow> jsstring + (jsstring \<times> jsval) list" where
  "parseFormDataLoop [] maxFileSize seen result = Inr result"
| "parseFormDataLoop ((key, v) # rest) maxFileSize seen result =
     (if key \<in> set seen then Inl (js ''Duplicate form field: '' @ key)
      else if key \<in> set DANGEROUS_QUERY_KEYS
        then parseFormDataLoop rest maxFileSize (key # seen) result
      else
        (case v of
           JFile bytes \<Rightarrow>
             if bytes > maxFileSize
               then Inl (js ''File too large: '' @ key @ js '' ('' @ showNat bytes @
                         js '' bytes, max '' @ showNat maxFileSize @ js '')'')
             else parseFormDataLoop rest maxFileSize (key # seen) (objSet result key v)
         | other \<Rightarrow> parseFormDataLoop rest maxFileSize (key # seen) (objSet result key v)))"

definition parseFormDataSafely ::
  "(jsstring \<times> jsval) list \<Rightarrow> nat \<Rightarrow> jsstring + (jsstring \<times> jsval) list" where
  "parseFormDataSafely formData maxFileSize = parseFormDataLoop formData maxFileSize [] []"

text \<open>
  What reading the body of the request gives, one field for each way the source reads
  it: \<open>req.json()\<close> and \<open>req.formData()\<close> may throw, \<open>req.text()\<close> gives the text, and
  \<open>new URLSearchParams(text)\<close> its pairs.
\<close>

record bodyReader =
  readJson :: "jsstring + jsval"
  readText :: jsstring
  readUrlEncoded :: "(jsstring \<times> jsstring) list"
  readFormData :: "jsstring + (jsstring \<times> jsval) list"

text \<open>
  The form pairs are written into an ordinary object. Under Deno the key \<open>__proto__\<close>
  is written as an own property like every other key.
\<close>

definition parseBodyByContentType :: "bodyReader \<Rightarrow> jsstring \<Rightarrow> jsstring + jsval" where
  "parseBodyByContentType req contentType =
     (if includesStr contentType (js ''application/json'') then readJson req
      else if includesStr contentType (js ''application/x-www-form-urlencoded'') then
        Inr (JObj (fold (\<lambda>(key, v) result. objSet result key (JStr v))
                        (readUrlEncoded req) []))
      else if includesStr contentType (js ''multipart/form-data'') then
        (case readFormData req of
           Inl e \<Rightarrow> Inl e
         | Inr formData \<Rightarrow>
             (case parseFormDataSafely formData DEFAULT_MAX_FILE_SIZE of
                Inl e \<Rightarrow> Inl e
              | Inr result \<Rightarrow> Inr (JObj result)))
      else if includesStr contentType (js ''text/plain'') then Inr (JStr (readText req))
      else Inl (js ''Unsupported content type: '' @ contentType))"

text \<open>
  \<open>BodySchema\<close> is a schema or a plain object from content types to schemas. The source
  tells them apart by the \<open>safeParse\<close> property, which every schema has and which is no
  content type.
\<close>

datatype bodySchema = SingleSchema schema | MultiSchema "(jsstring \<times> schema) list"

definition validationFailed :: "jsval \<Rightarrow> response" where
  "validationFailed errors =
     newResponse (Some (JObj [(js ''error'', JStr (js ''Validation failed'')),
                              (js ''details'', errors)]))
       400 [(js ''Content-Type'', js ''application/json'')]"

definition unsupportedMediaType :: response where
  "unsupportedMediaType =
     newResponse (Some (JObj [(js ''error'', JStr (js ''Unsupported Media Type''))]))
       415 [(js ''Content-Type'', js ''application/json'')]"

definition parseAndValidate :: "bodyReader \<Rightarrow> jsstring \<Rightarrow> schema \<Rightarrow> thrown + jsval" where
  "parseAndValidate req contentType sch =
     (case parseBodyByContentType req contentType of
        Inl e \<Rightarrow> Inl (ThrownError e)
      | Inr rawBody \<Rightarrow>
          (case validateDTO rawBody sch of
             Inl errors \<Rightarrow> Inl (ThrownResponse (validationFailed errors))
           | Inr data \<Rightarrow> Inr data))"

definition parseAndValidateBody ::
  "bodyReader \<Rightarrow> bodySchema \<Rightarrow> jsstring \<Rightarrow> jsstring list option \<Rightarrow> thrown + jsval" where
  "parseAndValidateBody req bodySch contentType supportedContentTypes =
     (case bodySch of
        MultiSchema contentTypeSchemas \<Rightarrow>
          (case find (\<lambda>(supportedType, typeSchema). includesStr contentType supportedType)
                     contentTypeSchemas of
             Some (supportedType, typeSchema) \<Rightarrow> parseAndValidate req contentType typeSchema
           | None \<Rightarrow> Inl (ThrownResponse unsupportedMediaType))
      | SingleSchema sch \<Rightarrow>
          (if (case supportedContentTypes of
                 None \<Rightarrow> False
               | Some types \<Rightarrow>
                   length types > 0 \<and>
                   \<not> list_ex (\<lambda>supportedType. includesStr contentType supportedType) types)
           then Inl (ThrownResponse unsupportedMediaType)
           else parseAndValidate req contentType sch))"

section \<open>middleware/composer.ts\<close>

text \<open>
  A middleware is an \<open>async\<close> function: calling it runs its body up to the first
  \<open>await\<close> and returns a promise; the rest of the body runs later, as a job, when the
  awaited promise is settled. The outcome of a promise is the response it was fulfilled
  with or what it was rejected with.

  What the body of a middleware does is written as a program over a world \<open>'w\<close> (the
  context it may change, a log, anything outside the composer): it changes the world,
  looks at it, calls \<open>next()\<close> and keeps the promise (\<open>Start\<close>; the argument of the
  continuation is \<open>Inl\<close> when the call itself threw), awaits a promise and goes on with
  its outcome, a rejection included, which is the \<open>catch\<close> around the \<open>await\<close>
  (\<open>Await\<close>), or returns or throws (\<open>Return\<close>). \<open>Next\<close> is \<open>await next()\<close>. The counter
  \<open>index\<close> of the composer lives in the closure of \<open>dispatch\<close>, where no middleware can
  touch it; a program cannot either.
\<close>

type_synonym outcome = "thrown + response"

type_synonym pid = nat

datatype 'w prog =
    Return outcome
  | Act "'w \<Rightarrow> 'w" "'w prog"
  | Read "'w \<Rightarrow> 'w prog"
  | Start "thrown + pid \<Rightarrow> 'w prog"
  | Await pid "outcome \<Rightarrow> 'w prog"

definition Next :: "(outcome \<Rightarrow> 'w prog) \<Rightarrow> 'w prog" where
  "Next k = Start (\<lambda>called. case called of Inl t \<Rightarrow> k (Inl t) | Inr p \<Rightarrow> Await p k)"

text \<open>
  A suspended call: which \<open>next\<close> it was given (the \<open>dispatch\<close> of a position, the second
  argument of the composed function, or nothing), the promise it returned, and the rest
  of its body, waiting for an outcome. A promise is pending, with the calls that await
  it, or settled. The machine is the counter, the world, the promises made so far and
  the queue of jobs: suspended calls whose awaited promise has been settled.
\<close>

datatype nextRef = DispatchAt int | CallLast | NotCallable

datatype 'w frame = Frame nextRef pid "outcome \<Rightarrow> 'w prog"

datatype 'w promise = Pending "'w frame list" | Settled outcome

record 'w machine =
  index :: int
  world :: 'w
  promises :: "'w promise list"
  jobs :: "('w frame \<times> outcome) list"

definition newPromise :: "'w promise \<Rightarrow> 'w machine \<Rightarrow> pid \<times> 'w machine" where
  "newPromise p m = (length (promises m), m \<lparr> promises := promises m @ [p] \<rparr>)"

text \<open>Settling a promise queues a job for each call that awaits it, in their order.\<close>

definition settle :: "pid \<Rightarrow> outcome \<Rightarrow> 'w machine \<Rightarrow> 'w machine" where
  "settle r out m =
     (if r < length (promises m) then
        (case promises m ! r of
           Pending waiting \<Rightarrow>
             m \<lparr> promises := (promises m)[r := Settled out],
                 jobs := jobs m @ map (\<lambda>fr. (fr, out)) waiting \<rparr>
         | Settled old \<Rightarrow> m)
      else m)"

text \<open>
  \<open>await p\<close>: the call is suspended; its job is queued at once when \<open>p\<close> is settled, and
  when \<open>p\<close> settles otherwise. (A number that is no promise is awaited for ever.)
\<close>

definition awaitPromise :: "pid \<Rightarrow> 'w frame \<Rightarrow> 'w machine \<Rightarrow> 'w machine" where
  "awaitPromise q fr m =
     (if q < length (promises m) then
        (case promises m ! q of
           Settled out \<Rightarrow> m \<lparr> jobs := jobs m @ [(fr, out)] \<rparr>
         | Pending waiting \<Rightarrow> m \<lparr> promises := (promises m)[q := Pending (waiting @ [fr])] \<rparr>)
      else m)"

text \<open>
  Running a body until it returns or is suspended: \<open>call\<close> is what calling its \<open>next\<close>
  does, \<open>ref\<close> names that \<open>next\<close> for the frame, \<open>r\<close> is the promise of this call.
  \<open>None\<close> is a run that needs more fuel than \<open>dispatch\<close> was given.
\<close>

primrec runSync ::
  "'w prog \<Rightarrow> ('w machine \<Rightarrow> ((thrown + pid) \<times> 'w machine) option) \<Rightarrow> nextRef \<Rightarrow> pid
     \<Rightarrow> 'w machine \<Rightarrow> 'w machine option" where
  "runSync (Return out) call ref r m = Some (settle r out m)"
| "runSync (Act f p) call ref r m = runSync p call ref r (m \<lparr> world := f (world m) \<rparr>)"
| "runSync (Read g) call ref r m = runSync (g (world m)) call ref r m"
| "runSync (Start k) call ref r m =
     (case call m of None \<Rightarrow> None | Some (called, m') \<Rightarrow> runSync (k called) call ref r m')"
| "runSync (Await q k) call ref r m = Some (awaitPromise q (Frame ref r k) m)"

text \<open>Calling an \<open>async\<close> function with the body \<open>p\<close>: a new promise, and the body run.\<close>

definition asyncCall ::
  "'w prog \<Rightarrow> ('w machine \<Rightarrow> ((thrown + pid) \<times> 'w machine) option) \<Rightarrow> nextRef
     \<Rightarrow> 'w machine \<Rightarrow> ((thrown + pid) \<times> 'w machine) option" where
  "asyncCall p call ref m =
     (let made = newPromise (Pending []) m in
      map_option (\<lambda>m'. (Inr (fst made), m')) (runSync p call ref (fst made) (snd made)))"

text \<open>
  \<open>dispatch(i)\<close>: the rejected promise of \<open>Promise.reject\<close>, or the counter set and the
  promise of the middleware. The second argument of the composed function is called as
  \<open>last(ctx, next)\<close> here, and without arguments by the pass-through of an empty list:
  it takes the context as an option (\<open>lastM\<close> below). The recursion of \<open>dispatch\<close> is not
  bounded by the list, since \<open>last\<close> is given a \<open>next\<close> too, so it is bounded by fuel.
\<close>

primrec dispatch ::
  "nat \<Rightarrow> ('c \<Rightarrow> 'w prog) list \<Rightarrow> ('c option \<Rightarrow> 'w prog) \<Rightarrow> 'c \<Rightarrow> int \<Rightarrow> 'w machine
     \<Rightarrow> ((thrown + pid) \<times> 'w machine) option" where
  "dispatch 0 middlewares lastM ctx i m = None"
| "dispatch (Suc fuel) middlewares lastM ctx i m =
     (if i \<le> index m
        then (let made = newPromise (Settled (Inl (ThrownError (js ''next() called multiple times'')))) m
              in Some (Inr (fst made), snd made))
      else
        asyncCall
          (if i < int (length middlewares) then (middlewares ! nat i) ctx else lastM (Some ctx))
          (dispatch fuel middlewares lastM ctx (i + 1))
          (DispatchAt (i + 1))
          (m \<lparr> index := i \<rparr>))"

text \<open>A call of \<open>undefined\<close>: the \<open>next\<close> that \<open>last\<close> gets from the pass-through.\<close>

definition notCallable :: "'w machine \<Rightarrow> ((thrown + pid) \<times> 'w machine) option" where
  "notCallable m = Some (Inl (ThrownError (js ''next is not a function'')), m)"

text \<open>What calling the \<open>next\<close> of a frame does.\<close>

definition callOf ::
  "nat \<Rightarrow> ('c \<Rightarrow> 'w prog) list \<Rightarrow> ('c option \<Rightarrow> 'w prog) \<Rightarrow> 'c \<Rightarrow> nextRef \<Rightarrow> 'w machine
     \<Rightarrow> ((thrown + pid) \<times> 'w machine) option" where
  "callOf fuel middlewares lastM ctx ref =
     (case ref of
        DispatchAt i \<Rightarrow> dispatch fuel middlewares lastM ctx i
      | CallLast \<Rightarrow> asyncCall (lastM None) notCallable NotCallable
      | NotCallable \<Rightarrow> notCallable)"

text \<open>The job queue, first in, first out, until it is empty.\<close>

primrec runJobs ::
  "nat \<Rightarrow> ('c \<Rightarrow> 'w prog) list \<Rightarrow> ('c option \<Rightarrow> 'w prog) \<Rightarrow> 'c \<Rightarrow> 'w machine
     \<Rightarrow> 'w machine option" where
  "runJobs 0 middlewares lastM ctx m = (if jobs m = [] then Some m else None)"
| "runJobs (Suc fuel) middlewares lastM ctx m =
     (case jobs m of
        [] \<Rightarrow> Some m
      | job # rest \<Rightarrow>
          (case fst job of
             Frame ref r k \<Rightarrow>
               (case runSync (k (snd job)) (callOf fuel middlewares lastM ctx ref) ref r
                       (m \<lparr> jobs := rest \<rparr>) of
                  None \<Rightarrow> None
                | Some m' \<Rightarrow> runJobs fuel middlewares lastM ctx m')))"

definition promiseOutcome :: "pid \<Rightarrow> 'w machine \<Rightarrow> outcome option" where
  "promiseOutcome r m =
     (if r < length (promises m) then
        (case promises m ! r of Settled out \<Rightarrow> Some out | Pending waiting \<Rightarrow> None)
      else None)"

text \<open>
  One invocation of the composed function, with a counter of its own, followed by the
  jobs it left: the result is the outcome of the returned promise (\<open>None\<close> inside when it
  is still pending after the last job) and the world.
\<close>

definition composeMiddlewares ::
  "nat \<Rightarrow> ('c \<Rightarrow> 'w prog) list \<Rightarrow> 'c \<Rightarrow> ('c option \<Rightarrow> 'w prog) \<Rightarrow> 'w
     \<Rightarrow> (outcome option \<times> 'w) option" where
  "composeMiddlewares fuel middlewares ctx lastM w =
     (let m0 = \<lparr> index = - 1, world = w, promises = [], jobs = [] \<rparr> in
      case (if length middlewares = 0
            then asyncCall (Next Return) (callOf fuel middlewares lastM ctx CallLast) CallLast m0
            else dispatch fuel middlewares lastM ctx 0 m0) of
        None \<Rightarrow> None
      | Some (Inl t, m1) \<Rightarrow> Some (Some (Inl t), world m1)
      | Some (Inr r, m1) \<Rightarrow>
          (case runJobs fuel middlewares lastM ctx m1 of
             None \<Rightarrow> None
           | Some m2 \<Rightarrow> Some (promiseOutcome r m2, world m2)))"

text \<open>
  The middlewares that the ordering property speaks of: \<open>around before after\<close> does
  \<open>before\<close>, awaits \<open>next()\<close>, then does \<open>after\<close> with the outcome, which it may replace;
  \<open>terminal h\<close> is a handler that does \<open>h\<close> and never calls \<open>next\<close>.
\<close>

definition finish :: "('w \<Rightarrow> outcome \<times> 'w) \<Rightarrow> 'w prog" where
  "finish h = Read (\<lambda>w. Act (\<lambda>_. snd (h w)) (Return (fst (h w))))"

definition around ::
  "('c \<Rightarrow> 'w \<Rightarrow> 'w) \<Rightarrow> ('c \<Rightarrow> outcome \<Rightarrow> 'w \<Rightarrow> outcome \<times> 'w) \<Rightarrow> 'c \<Rightarrow> 'w prog" where
  "around before after ctx = Act (before ctx) (Next (\<lambda>out. finish (after ctx out)))"

definition terminal :: "('c option \<Rightarrow> 'w \<Rightarrow> outcome \<times> 'w) \<Rightarrow> 'c option \<Rightarrow> 'w prog" where
  "terminal h ctx = finish (h ctx)"

text \<open>
  Two middlewares that call \<open>next\<close> twice: \<open>await next(); return await next()\<close>, and
  \<open>next(); return await next()\<close>, whose second call comes while the first is pending.
\<close>

definition callsNextTwice :: "'c \<Rightarrow> 'w prog" where
  "callsNextTwice ctx = Next (\<lambda>first. Next (\<lambda>second. Return second))"

definition callsNextWhilePending :: "'c \<Rightarrow> 'w prog" where
  "callsNextWhilePending ctx = Start (\<lambda>first. Next (\<lambda>second. Return second))"

text \<open>An instance that logs to a list, for the examples.\<close>

definition logs :: "string \<Rightarrow> unit \<Rightarrow> string list \<Rightarrow> string list" where
  "logs label ctx w = w @ [label]"

definition logsAfter :: "string \<Rightarrow> unit \<Rightarrow> outcome \<Rightarrow> string list \<Rightarrow> outcome \<times> string list" where
  "logsAfter label ctx out w = (out, w @ [label])"

definition logsHandler :: "unit option \<Rightarrow> string list \<Rightarrow> outcome \<times> string list" where
  "logsHandler ctx w = (Inr (newResponse None 204 []), w @ [''H''])"


section \<open>security/cors.ts\<close>

fun joinStr :: "jsstring \<Rightarrow> jsstring list \<Rightarrow> jsstring" where
  "joinStr sep [] = []"
| "joinStr sep [x] = x"
| "joinStr sep (x # y # rest) = x @ sep @ joinStr sep (y # rest)"

text \<open>\<^verbatim>\<open>/^[a-zA-Z0-9-]+$/\<close>\<close>

definition isValidHeaderName :: "jsstring \<Rightarrow> bool" where
  "isValidHeaderName name =
     (name \<noteq> [] \<and>
      list_all (\<lambda>c. (0x61 \<le> c \<and> c \<le> 0x7A) \<or> (0x41 \<le> c \<and> c \<le> 0x5A) \<or>
                     (0x30 \<le> c \<and> c \<le> 0x39) \<or> c = 0x2D) name)"

definition sanitizeHeaderList :: "jsstring list \<Rightarrow> jsstring" where
  "sanitizeHeaderList hs = joinStr (js '', '') (filter isValidHeaderName hs)"

text \<open>
  A CORS setting is a plain record of headers or, when it has the key
  \<open>allowedOrigins\<close>, a configuration. The configuration is declared with arrays, and a
  route can only carry strings (\<open>Record<string, string>\<close>); the source treats a string
  where it expects an array as a list of one, except in \<open>allowedOrigins\<close>, where
  \<open>includes\<close> then looks for a substring. \<open>maxAge\<close> is kept as the text \<open>String\<close> makes
  of it, absent when it is falsy.
\<close>

datatype strOrList = Str jsstring | Lst "jsstring list"

fun truthyField :: "strOrList option \<Rightarrow> bool" where
  "truthyField None = False"
| "truthyField (Some (Str s)) = (s \<noteq> [])"
| "truthyField (Some (Lst l)) = True"

fun asList :: "strOrList \<Rightarrow> jsstring list" where
  "asList (Str s) = [s]"
| "asList (Lst l) = l"

record corsConfig =
  allowedOrigins :: strOrList
  corsAllowedMethods :: "strOrList option"
  allowedHeaders :: "strOrList option"
  exposedHeaders :: "strOrList option"
  credentials :: bool
  maxAge :: "jsstring option"

datatype corsSetting = PlainHeaders jsrecord | CorsConfig corsConfig

fun originAllowed :: "strOrList \<Rightarrow> jsstring \<Rightarrow> bool" where
  "originAllowed (Str s) origin = includesStr s origin"
| "originAllowed (Lst l) origin = (origin \<in> set l)"

definition addIf :: "bool \<Rightarrow> jsstring \<Rightarrow> jsstring \<Rightarrow> jsrecord \<Rightarrow> jsrecord" where
  "addIf b key v hs = (if b then objSet hs key v else hs)"

definition buildCorsHeaders :: "jsstring option \<Rightarrow> corsSetting \<Rightarrow> jsstring + jsrecord" where
  "buildCorsHeaders origin setting =
     (case setting of
        PlainHeaders config \<Rightarrow> Inr config
      | CorsConfig config \<Rightarrow>
          if allowedOrigins config = Str (js ''*'') \<and> credentials config
            then Inl (js ''Cannot use wildcard origin with credentials'')
          else
            (let h0 =
                   (if allowedOrigins config = Str (js ''*'')
                      then [(js ''Access-Control-Allow-Origin'', js ''*'')]
                    else if origin \<noteq> None \<and> the origin \<noteq> [] \<and>
                            originAllowed (allowedOrigins config) (the origin)
                      then addIf (credentials config)
                             (js ''Access-Control-Allow-Credentials'') (js ''true'')
                             [(js ''Access-Control-Allow-Origin'', the origin)]
                    else []);
                 h1 = addIf (truthyField (corsAllowedMethods config))
                        (js ''Access-Control-Allow-Methods'')
                        (sanitizeHeaderList (asList (the (corsAllowedMethods config)))) h0;
                 h2 = addIf (truthyField (allowedHeaders config))
                        (js ''Access-Control-Allow-Headers'')
                        (sanitizeHeaderList (asList (the (allowedHeaders config)))) h1;
                 h3 = addIf (truthyField (exposedHeaders config))
                        (js ''Access-Control-Expose-Headers'')
                        (sanitizeHeaderList (asList (the (exposedHeaders config)))) h2
             in Inr (addIf (maxAge config \<noteq> None) (js ''Access-Control-Max-Age'')
                       (the (maxAge config)) h3)))"

fun mergeCorsConfigs :: "corsSetting option list \<Rightarrow> jsrecord \<Rightarrow> jsstring + jsrecord" where
  "mergeCorsConfigs [] result = Inr result"
| "mergeCorsConfigs (None # configs) result = mergeCorsConfigs configs result"
| "mergeCorsConfigs (Some config # configs) result =
     (case buildCorsHeaders None config of
        Inl e \<Rightarrow> Inl e
      | Inr hs \<Rightarrow> mergeCorsConfigs configs (objAssign result hs))"

section \<open>routing/compiler.ts and routing/matcher.ts: the route table\<close>

text \<open>
  A route definition, with the fields that routing reads; the others are in the
  extension of the record. A compiled route is the definition together with what
  \<open>compileRoute\<close> returned for its full path.
\<close>

record routeDef =
  routeMethod :: jsstring
  fullPath :: jsstring
  corsHeaders :: "corsSetting option"

record compiledRoute = routeDef +
  compiled :: compiledPath

record 'x compiledRoutesData =
  routes :: "'x compiledRoute_scheme list"
  routesByMethod :: "(jsstring \<times> 'x compiledRoute_scheme list) list"

text \<open>\<open>basePath.replace(/\/$/, '')\<close>\<close>

definition stripTrailingSlash :: "jsstring \<Rightarrow> jsstring" where
  "stripTrailingSlash s = (if s \<noteq> [] \<and> last s = 0x2F then butlast s else s)"

fun compileEach :: "jsstring \<Rightarrow> 'x routeDef_scheme list \<Rightarrow> jsstring + 'x compiledRoute_scheme list" where
  "compileEach basePath [] = Inr []"
| "compileEach basePath (route # rest) =
     (let path = stripTrailingSlash basePath @ fullPath route in
      case compileRoute path of
        Inl e \<Rightarrow> Inl e
      | Inr c \<Rightarrow>
          (case compileEach basePath rest of
             Inl e \<Rightarrow> Inl e
           | Inr cs \<Rightarrow>
               Inr (\<lparr> routeMethod = routeMethod route, fullPath = path,
                       corsHeaders = corsHeaders route, compiled = c,
                       \<dots> = routeDef.more route \<rparr> # cs)))"

definition indexByMethod ::
  "'x compiledRoute_scheme list \<Rightarrow> (jsstring \<times> 'x compiledRoute_scheme list) list" where
  "indexByMethod compiledRoutes =
     fold (\<lambda>route m.
             case map_of m (routeMethod route) of
               None \<Rightarrow> m @ [(routeMethod route, [route])]
             | Some rs \<Rightarrow> objSet m (routeMethod route) (rs @ [route]))
          compiledRoutes []"

definition compileRoutes ::
  "jsstring \<Rightarrow> 'x routeDef_scheme list \<Rightarrow> jsstring + 'x compiledRoutesData" where
  "compileRoutes basePath rs =
     (case compileEach basePath rs of
        Inl e \<Rightarrow> Inl e
      | Inr cs \<Rightarrow> Inr \<lparr> routes = cs, routesByMethod = indexByMethod cs \<rparr>)"

text \<open>
  The regular expression engine is a parameter \<open>rx\<close>: \<open>rx source path\<close> is \<open>None\<close> when
  the expression with that source does not match the path and the captured groups
  otherwise. A group that is missing reads as \<open>undefined\<close>, which \<open>decodeURIComponent\<close>
  turns into that word. The parameters are written into an ordinary object (under Deno
  a parameter named \<open>__proto__\<close> is an own property like the others).
\<close>

type_synonym regexEngine = "jsstring \<Rightarrow> jsstring \<Rightarrow> jsstring list option"

definition captureAt :: "jsstring list \<Rightarrow> nat \<Rightarrow> jsstring" where
  "captureAt groups i = (if i < length groups then groups ! i else js ''undefined'')"

definition decodeOrRaw :: "jsstring \<Rightarrow> jsstring" where
  "decodeOrRaw raw = (case decodeURIComponent raw of Some d \<Rightarrow> d | None \<Rightarrow> raw)"

definition extractParams :: "jsstring list \<Rightarrow> jsstring list \<Rightarrow> jsrecord" where
  "extractParams names groups =
     fold (\<lambda>(name, i) ps. objSet ps name (decodeOrRaw (captureAt groups i)))
          (zip names [0 ..< length names]) []"

fun matchLoop ::
  "regexEngine \<Rightarrow> jsstring \<Rightarrow> jsstring \<Rightarrow> 'x compiledRoute_scheme list
     \<Rightarrow> ('x compiledRoute_scheme \<times> jsrecord) option" where
  "matchLoop rx m pathname [] = None"
| "matchLoop rx m pathname (route # rest) =
     (if routeMethod route \<noteq> m \<and> m \<noteq> js ''OPTIONS'' then matchLoop rx m pathname rest
      else
        (case rx (regex (compiled route)) pathname of
           None \<Rightarrow> matchLoop rx m pathname rest
         | Some groups \<Rightarrow> Some (route, extractParams (params (compiled route)) groups)))"

definition matchRoute ::
  "regexEngine \<Rightarrow> jsstring \<Rightarrow> jsstring \<Rightarrow> 'x compiledRoutesData
     \<Rightarrow> ('x compiledRoute_scheme \<times> jsrecord) option" where
  "matchRoute rx m pathname data =
     matchLoop rx m pathname
       (if m = js ''OPTIONS'' then routes data
        else (case map_of (routesByMethod data) m of Some rs \<Rightarrow> rs | None \<Rightarrow> []))"

definition findMatchingRoutes ::
  "regexEngine \<Rightarrow> jsstring \<Rightarrow> 'x compiledRoutesData \<Rightarrow> 'x compiledRoute_scheme list" where
  "findMatchingRoutes rx pathname data =
     filter (\<lambda>route. rx (regex (compiled route)) pathname \<noteq> None) (routes data)"

text \<open>A \<open>Set\<close> keeps the first occurrence of each element, in insertion order.\<close>

fun setOf :: "'a list \<Rightarrow> 'a list" where
  "setOf [] = []"
| "setOf (x # xs) = x # filter (\<lambda>y. y \<noteq> x) (setOf xs)"

definition getAllowedMethods :: "regexEngine \<Rightarrow> jsstring \<Rightarrow> 'x compiledRoutesData \<Rightarrow> jsstring list" where
  "getAllowedMethods rx pathname data =
     (let methods = setOf (map routeMethod (findMatchingRoutes rx pathname data)) in
      if length methods > 0 \<and> js ''OPTIONS'' \<notin> set methods then methods @ [js ''OPTIONS'']
      else methods)"

section \<open>The request handler of the router: routing and path parameters\<close>

text \<open>
  Stages of \<open>handler\<close>: routing, the path parameters and, further down, the body. A
  stage throws, returns a response, or goes on with a value. (After routing the source
  asks the container for a request id; the id plays no part in these stages.)
\<close>

datatype 'a step = Throws jsstring | Responds response | Continues 'a

record request =
  reqMethod :: jsstring
  pathname :: jsstring
  originHeader :: "jsstring option"

definition defaultCorsOf :: "jsstring list \<Rightarrow> jsrecord" where
  "defaultCorsOf methods =
     [(js ''Access-Control-Allow-Origin'', js ''*''),
      (js ''Access-Control-Allow-Methods'', joinStr (js '', '') methods),
      (js ''Access-Control-Allow-Headers'', js ''authorization, x-client-info, apikey, content-type''),
      (js ''Access-Control-Max-Age'', js ''86400'')]"

definition notFoundResponse :: "jsrecord \<Rightarrow> response" where
  "notFoundResponse defaultCors =
     newResponse (Some (JObj [(js ''error'', JStr (js ''Not Found''))])) 404 defaultCors"

definition handlerRouting ::
  "regexEngine \<Rightarrow> 'x compiledRoutesData \<Rightarrow> request
     \<Rightarrow> ('x compiledRoute_scheme \<times> jsrecord \<times> jsrecord) step" where
  "handlerRouting rx compiledRoutes req =
     (let matchResult = matchRoute rx (reqMethod req) (pathname req) compiledRoutes;
          methods = getAllowedMethods rx (pathname req) compiledRoutes;
          defaultCors = defaultCorsOf methods
      in
      if reqMethod req = js ''OPTIONS'' then
        (if length methods = 0 then Responds (notFoundResponse defaultCors)
         else
           (case (case matchResult of
                    Some (route, ps) \<Rightarrow>
                      (case corsHeaders route of
                         Some setting \<Rightarrow> buildCorsHeaders (originHeader req) setting
                       | None \<Rightarrow> Inr defaultCors)
                  | None \<Rightarrow> Inr defaultCors) of
              Inl e \<Rightarrow> Throws e
            | Inr cors \<Rightarrow>
                (case mergeCorsConfigs [Some (PlainHeaders defaultCors), Some (PlainHeaders cors)] [] of
                   Inl e \<Rightarrow> Throws e
                 | Inr merged \<Rightarrow> Responds (newResponse None 204 merged))))
      else
        (case matchResult of
           None \<Rightarrow> Responds (notFoundResponse defaultCors)
         | Some (route, ps) \<Rightarrow>
             (case (case corsHeaders route of
                      Some setting \<Rightarrow> buildCorsHeaders (originHeader req) setting
                    | None \<Rightarrow> Inr defaultCors) of
                Inl e \<Rightarrow> Throws e
              | Inr cors \<Rightarrow> Continues (route, ps, cors))))"

fun sanitizeLoop :: "jsrecord \<Rightarrow> jsrecord \<Rightarrow> jsstring + jsrecord" where
  "sanitizeLoop [] sanitizedParams = Inr sanitizedParams"
| "sanitizeLoop ((key, v) # rest) sanitizedParams =
     (case sanitizePathParam v of
        Inl e \<Rightarrow> Inl e
      | Inr clean \<Rightarrow> sanitizeLoop rest (objSet sanitizedParams key clean))"

definition handlerSanitize ::
  "(jsstring \<Rightarrow> jsstring) \<Rightarrow> jsrecord \<Rightarrow> jsrecord \<Rightarrow> jsrecord step" where
  "handlerSanitize nfkc corsHdrs ps =
     (case sanitizeLoop ps [] of
        Inl message \<Rightarrow>
          Responds (newResponse
            (Some (JObj [(js ''error'', JStr (sanitizeErrorMessage nfkc (JStr message)))]))
            400 (objSet corsHdrs (js ''Content-Type'') (js ''application/json'')))
      | Inr sanitizedParams \<Rightarrow> Continues sanitizedParams)"

text \<open>
  The stage of \<open>handler\<close> that reads the body, for a route with the given body schema,
  \<open>disableDTOValidation\<close> flag and list of supported content types: a thrown response
  gets the CORS headers set on it and is returned, anything else thrown becomes a 400.
  Without a schema the body stays \<open>undefined\<close>.
\<close>

definition handlerBody ::
  "bodyReader \<Rightarrow> jsstring option \<Rightarrow> bodySchema option \<Rightarrow> bool \<Rightarrow> jsstring list option
     \<Rightarrow> jsrecord \<Rightarrow> jsval step" where
  "handlerBody req contentTypeHeader bodySch disableDTOValidation supportedContentTypes corsHdrs =
     (let contentType = (case contentTypeHeader of Some c \<Rightarrow> c | None \<Rightarrow> js ''application/json'')
      in
      if bodySch \<noteq> None \<and> \<not> disableDTOValidation then
        (case parseAndValidateBody req (the bodySch) contentType supportedContentTypes of
           Inr b \<Rightarrow> Continues b
         | Inl (ThrownResponse e) \<Rightarrow>
             Responds (e \<lparr> headers := fold (\<lambda>(key, v) hs. headersSet hs key v) corsHdrs (headers e) \<rparr>)
         | Inl (ThrownError message) \<Rightarrow>
             Responds (newResponse
               (Some (JObj [(js ''error'', JStr (js ''Body validation failed''))]))
               400 (objSet corsHdrs (js ''Content-Type'') (js ''application/json''))))
      else Continues JUndefined)"

section \<open>A regular expression engine for the examples\<close>

text \<open>
  The engine on the expressions that \<open>compileRoute\<close> builds from a path of letters,
  digits, slashes, underscores and hyphens with \<open>:name\<close> parameters: \<open>^\<close>, then literal
  code units and capture groups of one to 200 units of the class
  \<^verbatim>\<open>[a-zA-Z0-9_%.='\-]\<close>, then \<open>$\<close>. A group is greedy and gives back units
  until the rest matches. For any other expression this is not a model of the engine
  (it answers that nothing matches); only the examples use it.
\<close>

datatype rxToken = Lit "16 word" | Group

definition isPlainUnit :: "16 word \<Rightarrow> bool" where
  "isPlainUnit c = ((0x61 \<le> c \<and> c \<le> 0x7A) \<or> (0x41 \<le> c \<and> c \<le> 0x5A) \<or>
                     (0x30 \<le> c \<and> c \<le> 0x39) \<or> c = 0x2F \<or> c = 0x5F \<or> c = 0x2D)"

definition isGroupUnit :: "16 word \<Rightarrow> bool" where
  "isGroupUnit c = ((0x61 \<le> c \<and> c \<le> 0x7A) \<or> (0x41 \<le> c \<and> c \<le> 0x5A) \<or>
                     (0x30 \<le> c \<and> c \<le> 0x39) \<or> c = 0x5F \<or> c = 0x25 \<or> c = 0x2E \<or>
                     c = 0x3D \<or> c = 0x27 \<or> c = 0x2D)"

function rxTokens :: "jsstring \<Rightarrow> rxToken list option" where
  "rxTokens [] = Some []"
| "rxTokens (c # cs) =
     (if prefix SAFE_PATH_PARAM_PATTERN (c # cs)
        then map_option ((#) Group) (rxTokens (drop (length SAFE_PATH_PARAM_PATTERN) (c # cs)))
      else if isPlainUnit c then map_option ((#) (Lit c)) (rxTokens cs)
      else None)"
  by pat_completeness auto
termination
  by (relation "measure length") (auto simp: SAFE_PATH_PARAM_PATTERN_def js_def)

fun firstSome :: "'a option list \<Rightarrow> 'a option" where
  "firstSome [] = None"
| "firstSome (Some x # rest) = Some x"
| "firstSome (None # rest) = firstSome rest"

fun matchTokens :: "rxToken list \<Rightarrow> jsstring \<Rightarrow> jsstring list option" where
  "matchTokens [] s = (if s = [] then Some [] else None)"
| "matchTokens (Lit c # ts) s =
     (case s of [] \<Rightarrow> None | x # xs \<Rightarrow> if x = c then matchTokens ts xs else None)"
| "matchTokens (Group # ts) s =
     firstSome (map (\<lambda>k. map_option ((#) (take k s)) (matchTokens ts (drop k s)))
                    (rev [1 ..< Suc (min 200 (length (takeWhile isGroupUnit s)))]))"

definition plainEngine :: regexEngine where
  "plainEngine source path =
     (case source of
        [] \<Rightarrow> None
      | c # rest \<Rightarrow>
          if c = 0x5E \<and> rest \<noteq> [] \<and> last rest = 0x24 then
            (case rxTokens (butlast rest) of
               None \<Rightarrow> None
             | Some ts \<Rightarrow> matchTokens ts path)
          else None)"

text \<open>The router of the examples: base path \<open>/api\<close>, one route \<open>GET /users/:id\<close>.\<close>

definition exampleRoute :: routeDef where
  "exampleRoute = \<lparr> routeMethod = js ''GET'', fullPath = js ''/users/:id'', corsHeaders = None \<rparr>"

definition exampleTable :: "unit compiledRoutesData" where
  "exampleTable =
     (let c = \<lparr> routeMethod = js ''GET'', fullPath = js ''/api/users/:id'', corsHeaders = None,
                 compiled = \<lparr> regex = js ''^/api/users/'' @ SAFE_PATH_PARAM_PATTERN @ js ''$'',
                              params = [js ''id''] \<rparr> \<rparr>
      in \<lparr> routes = [c], routesByMethod = [(js ''GET'', [c])] \<rparr>)"


section \<open>Properties of the authenticator\<close>

lemmas sanitize_eval_defs =
  js_def normalizeNFKC_def isAsciiStr_def stripControlCharacters_def isControlCharacter_def
  stripZeroWidth_def isZeroWidth_def removeDangerousProtocols_def replaceAllCI_def
  htmlEscape_def replaceAll_def lowerUnit_def MAX_ERROR_MESSAGE_LENGTH_def

lemma sanitize_role_not_found:
  "sanitizeErrorMessage nfkc (JStr (js ''User role not found'')) = js ''User role not found''"
  by (simp add: sanitize_eval_defs)

lemma sanitize_no_roles:
  "sanitizeErrorMessage nfkc (JStr (js ''No roles configured for this route''))
     = js ''No roles configured for this route''"
  by (simp add: sanitize_eval_defs)

lemma createErrorResponse_status [simp]:
  "status (createErrorResponse nfkc message st cause) = st"
  by (simp add: createErrorResponse_def newResponse_def Let_def)

lemma createErrorResponse_body:
  "body (createErrorResponse nfkc message st None)
     = Some (JObj [(js ''error'', JStr (sanitizeErrorMessage nfkc (JStr message)))])"
  by (simp add: createErrorResponse_def newResponse_def Let_def)

text \<open>
  Claim C1. An auth result with a user, without an error response and not service
  bypassed, validated against options with \<open>requireRBAC: true\<close> and \<open>allowedRoles: []\<close>,
  gives a result whose \<open>response\<close> is present and has status 403, whatever the role of
  the user: the body is
  \<open>{error: "User role not found"}\<close> when the role is \<open>undefined\<close> or \<open>null\<close> and
  \<open>{error: "No roles configured for this route"}\<close> otherwise.
\<close>

theorem validateAuthResult_empty_roles_403:
  assumes "response result = None"
    and "\<not> truthy (serviceBypassed result)"
    and "user result = Some u"
    and "requireRBAC options = Some True"
    and "allowedRoles options = Some []"
  shows "\<exists>r. response (validateAuthResult nfkc result options) = Some r \<and> status r = 403 \<and>
           body r = Some (JObj [(js ''error'',
             JStr (if role u = RoleUndefined \<or> role u = RoleNull
                   then js ''User role not found''
                   else js ''No roles configured for this route''))])"
proof -
  let ?msg = "if role u = RoleUndefined \<or> role u = RoleNull
              then js ''User role not found''
              else js ''No roles configured for this route''"
  have run: "validateAuthResult nfkc result options = onlyResponse (forbidden nfkc ?msg)"
    using assms by (cases "role u") (simp_all add: validateAuthResult_def truthy_def)
  have rs: "response (validateAuthResult nfkc result options) = Some (forbidden nfkc ?msg)"
    unfolding run by (simp add: onlyResponse_def)
  have st: "status (forbidden nfkc ?msg) = 403"
    by (simp add: forbidden_def)
  have bd: "body (forbidden nfkc ?msg) = Some (JObj [(js ''error'', JStr ?msg)])"
    by (simp add: forbidden_def createErrorResponse_body sanitize_role_not_found sanitize_no_roles
        del: sanitizeErrorMessage.simps)
  from rs st bd show ?thesis by blast
qed

theorem validateAuthResult_empty_roles_403_witness:
  "\<exists>r. response (validateAuthResult id
         \<lparr> response = None, supabaseClient = None :: unit option, serviceRoleClient = None,
           user = Some \<lparr> role = Role (js ''admin'') \<rparr>, serviceBypassed = None \<rparr>
         \<lparr> allowedMethods = None, requireServiceRole = None, bypassWithServiceRole = None,
           bypassWithAnonRole = None, requireUserAuth = None, requireRBAC = Some True,
           allowedRoles = Some [] \<rparr>) = Some r \<and> status r = 403 \<and>
       body r = Some (JObj [(js ''error'', JStr (js ''No roles configured for this route''))])"
  using validateAuthResult_empty_roles_403 [of
         "\<lparr> response = None, supabaseClient = None :: unit option, serviceRoleClient = None,
           user = Some \<lparr> role = Role (js ''admin'') \<rparr>, serviceBypassed = None \<rparr>"
         "\<lparr> role = Role (js ''admin'') \<rparr>"
         "\<lparr> allowedMethods = None, requireServiceRole = None, bypassWithServiceRole = None,
           bypassWithAnonRole = None, requireUserAuth = None, requireRBAC = Some True,
           allowedRoles = Some [] \<rparr>" id]
  by (simp add: truthy_def)

text \<open>
  Claim C10. An auth result without an error response, without the service bypass and
  without a user passes through \<open>validateAuthResult\<close> unchanged whenever
  \<open>requireUserAuth\<close> is absent or false, whatever the other options are: \<open>requireRBAC\<close>
  alone rejects nothing when no identity was resolved.
\<close>

theorem validateAuthResult_no_identity_passes:
  assumes "response result = None"
    and "\<not> truthy (serviceBypassed result)"
    and "user result = None"
    and "\<not> truthy (requireUserAuth options)"
  shows "validateAuthResult nfkc result options = result"
  using assms by (simp add: validateAuthResult_def)

theorem validateAuthResult_no_identity_passes_witness:
  "validateAuthResult id
         \<lparr> response = None, supabaseClient = Some (), serviceRoleClient = None,
           user = None :: (nat authUser) option, serviceBypassed = Some False \<rparr>
         \<lparr> allowedMethods = None, requireServiceRole = None, bypassWithServiceRole = None,
           bypassWithAnonRole = None, requireUserAuth = Some False, requireRBAC = Some True,
           allowedRoles = Some [1, 2] \<rparr>
     = \<lparr> response = None, supabaseClient = Some (), serviceRoleClient = None,
           user = None, serviceBypassed = Some False \<rparr>"
  using validateAuthResult_no_identity_passes [of
         "\<lparr> response = None, supabaseClient = Some (), serviceRoleClient = None,
           user = None :: (nat authUser) option, serviceBypassed = Some False \<rparr>"
         "\<lparr> allowedMethods = None, requireServiceRole = None, bypassWithServiceRole = None,
           bypassWithAnonRole = None, requireUserAuth = Some False, requireRBAC = Some True,
           allowedRoles = Some [1, 2] \<rparr>" id]
  by (simp add: truthy_def)



section \<open>Properties of sanitizeErrorMessage\<close>

lemma set_replaceAllBy_subset:
  "set (replaceAllBy eq pat rep s) \<subseteq> set s \<union> set rep"
proof (induction eq pat rep s rule: replaceAllBy.induct)
  case (1 eq pat rep)
  show ?case by simp
next
  case (2 eq pat rep c cs)
  show ?case
  proof (cases "pat \<noteq> [] \<and> matchesAt eq pat (c # cs)")
    case True
    have "set (drop (length pat) (c # cs)) \<subseteq> set (c # cs)" by (rule set_drop_subset)
    with 2(1)[OF True] True show ?thesis by auto
  next
    case False
    with 2(2)[OF False] show ?thesis by auto
  qed
qed

lemma replaceAllBy_unit_removed:
  "c \<notin> set rep \<Longrightarrow> c \<notin> set (replaceAllBy (=) [c] rep s)"
proof (induction "(=) :: 'a \<Rightarrow> 'a \<Rightarrow> bool" "[c]" rep s rule: replaceAllBy.induct)
  case (1 rep)
  show ?case by simp
next
  case (2 rep d ds)
  show ?case
  proof (cases "matchesAt (=) [c] (d # ds)")
    case True
    with 2 show ?thesis by simp
  next
    case False
    then have "d \<noteq> c" by simp
    with 2 False show ?thesis by simp
  qed
qed

lemma replaceAll_keeps_out:
  "c \<notin> set rep \<Longrightarrow> c \<notin> set s \<Longrightarrow> c \<notin> set (replaceAll pat rep s)"
  using set_replaceAllBy_subset [of "(=)" pat rep s] by (auto simp: replaceAll_def)

lemma replaceAll_removes:
  "c \<notin> set rep \<Longrightarrow> c \<notin> set (replaceAll [c] rep s)"
  by (simp add: replaceAll_def replaceAllBy_unit_removed)


lemma htmlEscape_steps:
  "htmlEscape s =
     replaceAll [0x2F] (js ''&#x2F;'')
       (replaceAll [0x27] (js ''&#x27;'')
         (replaceAll [0x22] (js ''&quot;'')
           (replaceAll [0x3E] (js ''&gt;'')
             (replaceAll [0x3C] (js ''&lt;'')
               (replaceAll [0x26] (js ''&amp;'') s)))))"
  by (simp add: htmlEscape_def js_def)

lemma htmlEscape_no_lt: "0x3C \<notin> set (htmlEscape s)"
proof -
  have "0x3C \<notin> set (replaceAll [0x3C] (js ''&lt;'') x)" for x :: jsstring
    by (rule replaceAll_removes) (simp add: js_def)
  then have "0x3C \<notin> set (replaceAll [0x3E] (js ''&gt;'') (replaceAll [0x3C] (js ''&lt;'') x))"
    for x :: jsstring
    by (simp add: replaceAll_keeps_out js_def)
  then have "0x3C \<notin> set (replaceAll [0x22] (js ''&quot;'')
      (replaceAll [0x3E] (js ''&gt;'') (replaceAll [0x3C] (js ''&lt;'') x)))" for x :: jsstring
    by (simp add: replaceAll_keeps_out js_def)
  then have "0x3C \<notin> set (replaceAll [0x27] (js ''&#x27;'') (replaceAll [0x22] (js ''&quot;'')
      (replaceAll [0x3E] (js ''&gt;'') (replaceAll [0x3C] (js ''&lt;'') x))))" for x :: jsstring
    by (simp add: replaceAll_keeps_out js_def)
  then have "0x3C \<notin> set (replaceAll [0x2F] (js ''&#x2F;'') (replaceAll [0x27] (js ''&#x27;'')
      (replaceAll [0x22] (js ''&quot;'')
      (replaceAll [0x3E] (js ''&gt;'') (replaceAll [0x3C] (js ''&lt;'') x)))))" for x :: jsstring
    by (simp add: replaceAll_keeps_out js_def)
  then show ?thesis unfolding htmlEscape_steps .
qed

lemma htmlEscape_no_gt: "0x3E \<notin> set (htmlEscape s)"
proof -
  have "0x3E \<notin> set (replaceAll [0x3E] (js ''&gt;'') x)" for x :: jsstring
    by (rule replaceAll_removes) (simp add: js_def)
  then have "0x3E \<notin> set (replaceAll [0x22] (js ''&quot;'') (replaceAll [0x3E] (js ''&gt;'') x))"
    for x :: jsstring
    by (simp add: replaceAll_keeps_out js_def)
  then have "0x3E \<notin> set (replaceAll [0x27] (js ''&#x27;'') (replaceAll [0x22] (js ''&quot;'')
      (replaceAll [0x3E] (js ''&gt;'') x)))" for x :: jsstring
    by (simp add: replaceAll_keeps_out js_def)
  then have "0x3E \<notin> set (replaceAll [0x2F] (js ''&#x2F;'') (replaceAll [0x27] (js ''&#x27;'')
      (replaceAll [0x22] (js ''&quot;'') (replaceAll [0x3E] (js ''&gt;'') x))))" for x :: jsstring
    by (simp add: replaceAll_keeps_out js_def)
  then show ?thesis unfolding htmlEscape_steps .
qed

lemma htmlEscape_no_dquote: "0x22 \<notin> set (htmlEscape s)"
proof -
  have "0x22 \<notin> set (replaceAll [0x22] (js ''&quot;'') x)" for x :: jsstring
    by (rule replaceAll_removes) (simp add: js_def)
  then have "0x22 \<notin> set (replaceAll [0x27] (js ''&#x27;'') (replaceAll [0x22] (js ''&quot;'') x))"
    for x :: jsstring
    by (simp add: replaceAll_keeps_out js_def)
  then have "0x22 \<notin> set (replaceAll [0x2F] (js ''&#x2F;'') (replaceAll [0x27] (js ''&#x27;'')
      (replaceAll [0x22] (js ''&quot;'') x)))" for x :: jsstring
    by (simp add: replaceAll_keeps_out js_def)
  then show ?thesis unfolding htmlEscape_steps .
qed

lemma htmlEscape_no_squote: "0x27 \<notin> set (htmlEscape s)"
proof -
  have "0x27 \<notin> set (replaceAll [0x27] (js ''&#x27;'') x)" for x :: jsstring
    by (rule replaceAll_removes) (simp add: js_def)
  then have "0x27 \<notin> set (replaceAll [0x2F] (js ''&#x2F;'') (replaceAll [0x27] (js ''&#x27;'') x))"
    for x :: jsstring
    by (simp add: replaceAll_keeps_out js_def)
  then show ?thesis unfolding htmlEscape_steps .
qed

lemma special_units: "set (js [CHR ''<'', CHR ''>'', CHR 0x22, CHR 0x27]) = {0x3C, 0x3E, 0x22, 0x27}"
  by (simp add: js_def)

text \<open>
  Claim C8. \<open>sanitizeErrorMessage\<close> answers \<open>Internal server error\<close> for every input that
  is not a string; for every string input (and whatever the NFKC tables do to it) the
  result contains none of the code units \<open><\<close>, \<open>>\<close>, double quote and single quote, and
  has at most 500 code units.
\<close>

theorem sanitizeErrorMessage_safe:
  "((\<forall>s. v \<noteq> JStr s) \<longrightarrow> sanitizeErrorMessage nfkc v = js ''Internal server error'') \<and>
   set (sanitizeErrorMessage nfkc (JStr s)) \<inter> set (js [CHR ''<'', CHR ''>'', CHR 0x22, CHR 0x27]) = {} \<and>
   length (sanitizeErrorMessage nfkc (JStr s)) \<le> 500"
proof (intro conjI impI)
  assume "\<forall>s. v \<noteq> JStr s"
  then show "sanitizeErrorMessage nfkc v = js ''Internal server error''"
    by (cases v) simp_all
next
  let ?e = "htmlEscape (removeDangerousProtocols (stripZeroWidth
              (stripControlCharacters (normalizeNFKC nfkc s))))"
  have "set (take MAX_ERROR_MESSAGE_LENGTH ?e) \<subseteq> set ?e" by (rule set_take_subset)
  moreover have "set ?e \<inter> {0x3C, 0x3E, 0x22, 0x27} = {}"
    using htmlEscape_no_lt htmlEscape_no_gt htmlEscape_no_dquote htmlEscape_no_squote by blast
  ultimately show "set (sanitizeErrorMessage nfkc (JStr s))
      \<inter> set (js [CHR ''<'', CHR ''>'', CHR 0x22, CHR 0x27]) = {}"
    unfolding special_units by auto
next
  show "length (sanitizeErrorMessage nfkc (JStr s)) \<le> 500"
    by (simp add: MAX_ERROR_MESSAGE_LENGTH_def)
qed

theorem sanitizeErrorMessage_safe_witness:
  "(\<forall>s. JNum 42 \<noteq> JStr s) \<and>
   sanitizeErrorMessage id (JNum 42) = js ''Internal server error'' \<and>
   sanitizeErrorMessage id (JStr (js ''<script>alert(1)</script>''))
     = js ''&lt;script&gt;alert(1)&lt;&#x2F;script&gt;'' \<and>
   set (sanitizeErrorMessage id (JStr (js ''<script>alert(1)</script>'')))
     \<inter> set (js [CHR ''<'', CHR ''>'', CHR 0x22, CHR 0x27]) = {} \<and>
   length (sanitizeErrorMessage id (JStr (js ''<script>alert(1)</script>''))) \<le> 500"
proof -
  have ev: "sanitizeErrorMessage id (JStr (js ''<script>alert(1)</script>''))
     = js ''&lt;script&gt;alert(1)&lt;&#x2F;script&gt;''"
    by (simp add: js_def normalizeNFKC_def isAsciiStr_def stripControlCharacters_def isControlCharacter_def
  stripZeroWidth_def isZeroWidth_def removeDangerousProtocols_def replaceAllCI_def
  htmlEscape_def replaceAll_def lowerUnit_def MAX_ERROR_MESSAGE_LENGTH_def)
  have ns: "\<forall>s. JNum 42 \<noteq> JStr s" by simp
  from sanitizeErrorMessage_safe [of "JNum 42" id "js ''<script>alert(1)</script>''"] ns ev
  show ?thesis by blast
qed



section \<open>Properties of parseQuerySafely\<close>

lemma map_of_objSet: "map_of (objSet q k v) k' = (if k' = k then Some v else map_of q k')"
  by (induction q k v rule: objSet.induct) auto

lemma keys_objSet: "fst ` set (objSet q k v) = insert k (fst ` set q)"
  by (induction q k v rule: objSet.induct) auto

lemma distinct_objSet: "distinct (map fst q) \<Longrightarrow> distinct (map fst (objSet q k v))"
  by (induction q k v rule: objSet.induct) (auto simp: keys_objSet)

lemma parseQueryEntry_prototype:
  "prototypeOf (parseQueryEntry e q) = prototypeOf q"
  by (simp add: parseQueryEntry_def Let_def)

lemma parseQueryEntry_lookup:
  assumes "prototypeOf q = NullPrototype"
  shows "map_of (properties (parseQueryEntry (key, v) q)) k =
     (case map_of (properties q) k of Some w \<Rightarrow> Some w
      | None \<Rightarrow> if k = key \<and> \<not> blockedKey k then Some v else None)"
proof -
  have mem: "inOperator key q \<longleftrightarrow> map_of (properties q) key \<noteq> None"
    using assms by (simp add: inOperator_def map_of_eq_None_iff)
  show ?thesis
    by (auto simp: parseQueryEntry_def Let_def map_of_objSet blockedKey_def mem
        split: option.splits)
qed

lemma fold_parseQueryEntry_prototype:
  "prototypeOf (fold parseQueryEntry sp q) = prototypeOf q"
  by (induction sp arbitrary: q) (simp_all add: parseQueryEntry_prototype)

lemma fold_parseQueryEntry_lookup:
  "prototypeOf q = NullPrototype \<Longrightarrow>
   map_of (properties (fold parseQueryEntry sp q)) k =
     (case map_of (properties q) k of Some w \<Rightarrow> Some w
      | None \<Rightarrow> if blockedKey k then None else map_of sp k)"
proof (induction sp arbitrary: q)
  case Nil
  show ?case by (simp split: option.splits)
next
  case (Cons e sp)
  obtain key v where e: "e = (key, v)" by (cases e)
  have p: "prototypeOf (parseQueryEntry (key, v) q) = NullPrototype"
    using Cons.prems by (simp add: parseQueryEntry_prototype)
  have "map_of (properties (fold parseQueryEntry (e # sp) q)) k =
      (case map_of (properties (parseQueryEntry (key, v) q)) k of Some w \<Rightarrow> Some w
       | None \<Rightarrow> if blockedKey k then None else map_of sp k)"
    using Cons.IH [OF p] by (simp add: e)
  also have "\<dots> = (case map_of (properties q) k of Some w \<Rightarrow> Some w
       | None \<Rightarrow> if blockedKey k then None else map_of (e # sp) k)"
    by (simp add: parseQueryEntry_lookup [OF Cons.prems] e split: option.splits)
  finally show ?case .
qed

lemma fold_parseQueryEntry_distinct:
  "distinct (map fst (properties q)) \<Longrightarrow>
   distinct (map fst (properties (fold parseQueryEntry sp q)))"
proof (induction sp arbitrary: q)
  case Nil
  then show ?case by simp
next
  case (Cons e sp)
  have "distinct (map fst (properties (parseQueryEntry e q)))"
    using Cons.prems by (simp add: parseQueryEntry_def Let_def distinct_objSet)
  then show ?case by (simp add: Cons.IH)
qed

lemma blockedKey_spelled:
  "blockedKey k \<longleftrightarrow>
     k = js ''__proto__'' \<or> k = js ''constructor'' \<or> k = js ''prototype'' \<or>
     includesStr k (js ''['') \<or> includesStr k (js '']'') \<or> prefix (js ''_'') k"
  by (auto simp: blockedKey_def DANGEROUS_QUERY_KEYS_def)

text \<open>
  Claim C7. In the object that \<open>parseQuerySafely\<close> returns, the keys \<open>__proto__\<close>,
  \<open>constructor\<close> and \<open>prototype\<close>, a key containing a bracket and a key starting with
  an underscore are absent, and every other key has the value of its first occurrence
  in the query (\<open>map_of\<close> reads the first entry of a key); no key occurs twice. The object
  has no prototype, so \<open>in\<close> finds its own properties and nothing inherited. For the
  pairs of \<open>__proto__=x&a=1&a=2\<close> the own properties are exactly \<open>{a: "1"}\<close>.
\<close>

theorem parseQuerySafely_first_wins:
  "map_of (properties (parseQuerySafely sp)) k =
     (if k = js ''__proto__'' \<or> k = js ''constructor'' \<or> k = js ''prototype'' \<or>
         includesStr k (js ''['') \<or> includesStr k (js '']'') \<or> prefix (js ''_'') k
      then None else map_of sp k) \<and>
   distinct (map fst (properties (parseQuerySafely sp))) \<and>
   prototypeOf (parseQuerySafely sp) = NullPrototype \<and>
   (inOperator k (parseQuerySafely sp) \<longleftrightarrow> k \<in> fst ` set (properties (parseQuerySafely sp))) \<and>
   parseQuerySafely [(js ''__proto__'', js ''x''), (js ''a'', js ''1''), (js ''a'', js ''2'')]
     = \<lparr> prototypeOf = NullPrototype, properties = [(js ''a'', js ''1'')] \<rparr>"
proof (intro conjI)
  show "map_of (properties (parseQuerySafely sp)) k =
     (if k = js ''__proto__'' \<or> k = js ''constructor'' \<or> k = js ''prototype'' \<or>
         includesStr k (js ''['') \<or> includesStr k (js '']'') \<or> prefix (js ''_'') k
      then None else map_of sp k)"
    using fold_parseQueryEntry_lookup
            [of "\<lparr> prototypeOf = NullPrototype, properties = [] \<rparr>" sp k]
    by (simp add: parseQuerySafely_def blockedKey_spelled)
  show "distinct (map fst (properties (parseQuerySafely sp)))"
    by (simp add: parseQuerySafely_def fold_parseQueryEntry_distinct)
  show p: "prototypeOf (parseQuerySafely sp) = NullPrototype"
    by (simp add: parseQuerySafely_def fold_parseQueryEntry_prototype)
  show "inOperator k (parseQuerySafely sp) \<longleftrightarrow> k \<in> fst ` set (properties (parseQuerySafely sp))"
    by (simp add: inOperator_def p)
  show "parseQuerySafely [(js ''__proto__'', js ''x''), (js ''a'', js ''1''), (js ''a'', js ''2'')]
     = \<lparr> prototypeOf = NullPrototype, properties = [(js ''a'', js ''1'')] \<rparr>"
    by (simp add: parseQuerySafely_def parseQueryEntry_def inOperator_def
        DANGEROUS_QUERY_KEYS_def js_def)
qed

theorem parseQuerySafely_first_wins_witness:
  "map_of (properties (parseQuerySafely
       [(js ''constructor'', js ''c''), (js ''a'', js ''1''), (js ''prototype'', js ''p''),
        (js ''toString'', js ''t''), (js ''a'', js ''2'')])) (js ''a'') = Some (js ''1'') \<and>
   map_of (properties (parseQuerySafely
       [(js ''constructor'', js ''c''), (js ''a'', js ''1''), (js ''prototype'', js ''p''),
        (js ''toString'', js ''t''), (js ''a'', js ''2'')])) (js ''constructor'') = None \<and>
   map_of (properties (parseQuerySafely
       [(js ''constructor'', js ''c''), (js ''a'', js ''1''), (js ''prototype'', js ''p''),
        (js ''toString'', js ''t''), (js ''a'', js ''2'')])) (js ''prototype'') = None \<and>
   map_of (properties (parseQuerySafely
       [(js ''constructor'', js ''c''), (js ''a'', js ''1''), (js ''prototype'', js ''p''),
        (js ''toString'', js ''t''), (js ''a'', js ''2'')])) (js ''toString'') = Some (js ''t'') \<and>
   \<not> inOperator (js ''hasOwnProperty'') (parseQuerySafely
       [(js ''constructor'', js ''c''), (js ''a'', js ''1''), (js ''prototype'', js ''p''),
        (js ''toString'', js ''t''), (js ''a'', js ''2'')])"
proof -
  let ?sp = "[(js ''constructor'', js ''c''), (js ''a'', js ''1''), (js ''prototype'', js ''p''),
        (js ''toString'', js ''t''), (js ''a'', js ''2'')]"
  have a: "map_of (properties (parseQuerySafely ?sp)) (js ''a'') = Some (js ''1'')"
    using parseQuerySafely_first_wins [of ?sp "js ''a''"] by (simp add: js_def)
  have c: "map_of (properties (parseQuerySafely ?sp)) (js ''constructor'') = None"
    using parseQuerySafely_first_wins [of ?sp "js ''constructor''"] by simp
  have p: "map_of (properties (parseQuerySafely ?sp)) (js ''prototype'') = None"
    using parseQuerySafely_first_wins [of ?sp "js ''prototype''"] by simp
  have t: "map_of (properties (parseQuerySafely ?sp)) (js ''toString'') = Some (js ''t'')"
    using parseQuerySafely_first_wins [of ?sp "js ''toString''"] by (simp add: js_def)
  have "map_of (properties (parseQuerySafely ?sp)) (js ''hasOwnProperty'') = None"
    using parseQuerySafely_first_wins [of ?sp "js ''hasOwnProperty''"] by (simp add: js_def)
  then have h: "\<not> inOperator (js ''hasOwnProperty'') (parseQuerySafely ?sp)"
    using parseQuerySafely_first_wins [of ?sp "js ''hasOwnProperty''"]
    by (simp add: map_of_eq_None_iff)
  from a c p t h show ?thesis by blast
qed


section \<open>Properties of the path compiler\<close>

lemma includesStr_iff_sublist: "includesStr s pat \<longleftrightarrow> sublist pat s"
  by (induction s) (auto simp: sublist_Cons_right)

lemma includesStr_map_iff:
  "includesStr (map f s) pat \<longleftrightarrow> (\<exists>q. map f q = pat \<and> includesStr s q)"
proof
  assume "includesStr (map f s) pat"
  then obtain ps ss where "map f s = ps @ pat @ ss"
    by (auto simp: includesStr_iff_sublist sublist_def)
  then have "\<exists>us ws. s = us @ ws \<and> ps = map f us \<and> pat @ ss = map f ws"
    by (simp add: map_eq_append_conv)
  then obtain us ws where 1: "s = us @ ws" "pat @ ss = map f ws" by blast
  from 1(2) have "\<exists>q vs. ws = q @ vs \<and> pat = map f q \<and> ss = map f vs"
    by (simp add: append_eq_map_conv)
  then obtain q vs where 2: "ws = q @ vs" "map f q = pat" by auto
  from 1 2 have "s = us @ q @ vs" "map f q = pat" by simp_all
  then show "\<exists>q. map f q = pat \<and> includesStr s q"
    by (auto simp: includesStr_iff_sublist sublist_def)
next
  assume "\<exists>q. map f q = pat \<and> includesStr s q"
  then obtain q ps ss where "map f q = pat" "s = ps @ q @ ss"
    by (auto simp: includesStr_iff_sublist sublist_def)
  then have "map f s = map f ps @ pat @ map f ss" by simp
  then show "includesStr (map f s) pat"
    unfolding includesStr_iff_sublist sublist_def by blast
qed

lemma lowerUnit_eq_percent: "lowerUnit c = 0x25 \<longleftrightarrow> c = 0x25"
  unfolding lowerUnit_def by (auto simp: word_le_nat_alt)

lemma lowerUnit_eq_2: "lowerUnit c = 0x32 \<longleftrightarrow> c = 0x32"
  unfolding lowerUnit_def by (auto simp: word_le_nat_alt)

lemma lowerUnit_eq_e: "lowerUnit c = 0x65 \<longleftrightarrow> c = 0x65 \<or> c = 0x45"
  unfolding lowerUnit_def by (auto simp: word_le_nat_alt)


lemma lowerUnit_eq_f: "lowerUnit c = 0x66 \<longleftrightarrow> c = 0x66 \<or> c = 0x46"
  unfolding lowerUnit_def by (auto simp: word_le_nat_alt)

lemma lowerUnit_eq_5: "lowerUnit c = 0x35 \<longleftrightarrow> c = 0x35"
  unfolding lowerUnit_def by (auto simp: word_le_nat_alt)

lemma lowerUnit_eq_c: "lowerUnit c = 0x63 \<longleftrightarrow> c = 0x63 \<or> c = 0x43"
  unfolding lowerUnit_def by (auto simp: word_le_nat_alt)

lemmas lowerUnit_eqs = lowerUnit_eq_percent lowerUnit_eq_2 lowerUnit_eq_e lowerUnit_eq_f
  lowerUnit_eq_5 lowerUnit_eq_c

lemma lowered_is_2e2e:
  "map lowerUnit q = js ''%2e%2e'' \<longleftrightarrow>
     q = js ''%2e%2e'' \<or> q = js ''%2E%2e'' \<or> q = js ''%2e%2E'' \<or> q = js ''%2E%2E''"
  by (auto simp: js_def map_eq_Cons_conv lowerUnit_eqs)

lemma lowered_is_2f:
  "map lowerUnit q = js ''%2f'' \<longleftrightarrow> q = js ''%2f'' \<or> q = js ''%2F''"
  by (auto simp: js_def map_eq_Cons_conv lowerUnit_eqs)

lemma lowered_is_5c:
  "map lowerUnit q = js ''%5c'' \<longleftrightarrow> q = js ''%5c'' \<or> q = js ''%5C''"
  by (auto simp: js_def map_eq_Cons_conv lowerUnit_eqs)

lemma lowered_includes_2e2e:
  "includesStr (toLowerCase p) (js ''%2e%2e'') \<longleftrightarrow>
     includesStr p (js ''%2e%2e'') \<or> includesStr p (js ''%2E%2e'') \<or>
     includesStr p (js ''%2e%2E'') \<or> includesStr p (js ''%2E%2E'')"
  unfolding toLowerCase_def includesStr_map_iff lowered_is_2e2e by blast

lemma lowered_includes_2f:
  "includesStr (toLowerCase p) (js ''%2f'') \<longleftrightarrow>
     includesStr p (js ''%2f'') \<or> includesStr p (js ''%2F'')"
  unfolding toLowerCase_def includesStr_map_iff lowered_is_2f by blast

lemma lowered_includes_5c:
  "includesStr (toLowerCase p) (js ''%5c'') \<longleftrightarrow>
     includesStr p (js ''%5c'') \<or> includesStr p (js ''%5C'')"
  unfolding toLowerCase_def includesStr_map_iff lowered_is_5c by blast

lemma includesStr_unit: "includesStr s [c] \<longleftrightarrow> c \<in> set s"
  by (induction s) auto

text \<open>
  Claim C5. A path pattern that contains \<open>..\<close>, or \<open>%2e%2e\<close> with either hexadecimal
  digit \<open>e\<close> in upper or lower case, or a NUL code unit, is rejected by \<open>compileRoute\<close>
  with an error: no matcher is built.
\<close>

theorem compileRoute_rejects_unsafe:
  assumes "includesStr path (js ''..'') \<or>
           includesStr path (js ''%2e%2e'') \<or> includesStr path (js ''%2E%2e'') \<or>
           includesStr path (js ''%2e%2E'') \<or> includesStr path (js ''%2E%2E'') \<or>
           0 \<in> set path"
  shows "\<exists>message. compileRoute path = Inl message"
proof -
  from assms have "includesStr path (js ''..'') \<or> includesStr (toLowerCase path) (js ''%2e%2e'')
      \<or> includesStr path [0]"
    by (simp add: lowered_includes_2e2e includesStr_unit)
  then have "\<exists>message. validatePathSafety path = Inl message"
    by (auto simp: validatePathSafety_def)
  then show ?thesis by (auto simp: compileRoute_def)
qed

theorem compileRoute_rejects_unsafe_witness:
  "compileRoute (js ''/files/%2E%2e/secret'')
     = Inl (js ''Encoded path traversal detected in route path'')"
proof -
  have "includesStr (js ''/files/%2E%2e/secret'') (js ''%2E%2e'')"
    by (simp add: js_def)
  with compileRoute_rejects_unsafe [of "js ''/files/%2E%2e/secret''"]
  obtain message where m: "compileRoute (js ''/files/%2E%2e/secret'') = Inl message" by blast
  have "validatePathSafety (js ''/files/%2E%2e/secret'')
     = Inl (js ''Encoded path traversal detected in route path'')"
    by (simp add: validatePathSafety_def toLowerCase_def lowerUnit_def js_def)
  with m show ?thesis by (simp add: compileRoute_def)
qed


lemma takeWhile_all: "list_all P (takeWhile P xs)"
  by (induction xs) auto

lemma paramMatches_valid: "n \<in> set (paramMatches path) \<Longrightarrow> isValidParamName n"
proof (induction path arbitrary: n rule: paramMatches.induct)
  case 1
  then show ?case by simp
next
  case (2 c cs)
  show ?case
  proof (cases "c = 0x3A \<and> cs \<noteq> [] \<and> isNameStart (hd cs)")
    case True
    then obtain d ds where cs: "cs = d # ds" and d: "isNameStart d"
      by (cases cs) auto
    have tw: "takeWhile isNameChar cs = d # takeWhile isNameChar ds"
      using d by (simp add: cs isNameChar_def)
    have v: "isValidParamName (takeWhile isNameChar cs)"
      unfolding tw using d by (simp add: takeWhile_all)
    from "2.prems" True
    have "n = takeWhile isNameChar cs \<or> n \<in> set (paramMatches (dropWhile isNameChar cs))"
      by simp
    then show ?thesis
    proof
      assume "n = takeWhile isNameChar cs"
      with v show ?thesis by simp
    next
      assume "n \<in> set (paramMatches (dropWhile isNameChar cs))"
      then show ?thesis by (rule "2.IH"(1) [OF True])
    qed
  next
    case False
    with "2.prems" have "n \<in> set (paramMatches cs)" by simp
    then show ?thesis by (rule "2.IH"(2) [OF False])
  qed
qed


lemma extractParamLoop_valid:
  "\<forall>n \<in> set ns. isValidParamName n \<Longrightarrow> distinct acc \<Longrightarrow>
     (if distinct (acc @ ns) then extractParamLoop ns acc = Inr (acc @ ns)
      else \<exists>n \<in> set ns. extractParamLoop ns acc = Inl (js ''Duplicate parameter name: '' @ n))"
proof (induction ns arbitrary: acc)
  case Nil
  then show ?case by simp
next
  case (Cons n ns)
  from Cons.prems have vn: "isValidParamName n" and vns: "\<forall>m \<in> set ns. isValidParamName m"
    by simp_all
  show ?case
  proof (cases "n \<in> set acc")
    case True
    then have "extractParamLoop (n # ns) acc = Inl (js ''Duplicate parameter name: '' @ n)"
      using vn by simp
    moreover from True have "\<not> distinct (acc @ n # ns)" by simp
    ultimately show ?thesis by (simp del: extractParamLoop.simps)
  next
    case False
    with Cons.prems have d: "distinct (acc @ [n])" by simp
    have step: "extractParamLoop (n # ns) acc = extractParamLoop ns (acc @ [n])"
      using vn False by simp
    have eq: "distinct (acc @ n # ns) = distinct ((acc @ [n]) @ ns)" by simp
    have app: "acc @ n # ns = (acc @ [n]) @ ns" by simp
    from Cons.IH [OF vns d] show ?thesis
      unfolding step app by (auto split: if_splits simp del: append_assoc)
  qed
qed


lemma extractParamNames_result:
  "(if distinct (paramMatches path) then extractParamNames path = Inr (paramMatches path)
    else \<exists>n \<in> set (paramMatches path).
           extractParamNames path = Inl (js ''Duplicate parameter name: '' @ n))"
proof -
  have "\<forall>n \<in> set (paramMatches path). isValidParamName n"
    using paramMatches_valid by blast
  from extractParamLoop_valid [OF this, of "[]"] show ?thesis
    by (simp add: extractParamNames_def)
qed

lemma validatePathSafety_fails_iff:
  "(\<exists>message. validatePathSafety path = Inl message) \<longleftrightarrow>
     includesStr path (js ''..'') \<or> includesStr (toLowerCase path) (js ''%2e%2e'') \<or>
     includesStr path [0]"
  by (simp add: validatePathSafety_def)

lemma compileRoute_fails_iff:
  "(\<exists>message. compileRoute path = Inl message) \<longleftrightarrow>
     includesStr path (js ''..'') \<or> includesStr (toLowerCase path) (js ''%2e%2e'') \<or>
     includesStr path [0] \<or> \<not> distinct (paramMatches path)"
proof (cases "validatePathSafety path")
  case (Inl e)
  then have "\<exists>message. validatePathSafety path = Inl message" by simp
  then have "includesStr path (js ''..'') \<or>
     includesStr (toLowerCase path) (js ''%2e%2e'') \<or> includesStr path [0]"
    unfolding validatePathSafety_fails_iff .
  moreover have "compileRoute path = Inl e" using Inl by (simp add: compileRoute_def)
  ultimately show ?thesis by blast
next
  case (Inr u)
  then have "\<not> (\<exists>message. validatePathSafety path = Inl message)" by simp
  then have safe: "\<not> (includesStr path (js ''..'') \<or>
     includesStr (toLowerCase path) (js ''%2e%2e'') \<or> includesStr path [0])"
    unfolding validatePathSafety_fails_iff .
  show ?thesis
  proof (cases "distinct (paramMatches path)")
    case True
    with extractParamNames_result [of path]
    have "extractParamNames path = Inr (paramMatches path)" by simp
    with Inr True safe show ?thesis by (simp add: compileRoute_def)
  next
    case False
    with extractParamNames_result [of path]
    obtain n where "extractParamNames path = Inl (js ''Duplicate parameter name: '' @ n)"
      by auto
    with Inr False show ?thesis by (simp add: compileRoute_def)
  qed
qed


text \<open>
  Claim C3 says that a pattern declaring a parameter with a malformed name does not
  compile. The pattern \<open>/users/:123invalid\<close> declares the name \<open>123invalid\<close>, which the
  documentation of \<open>isValidParamName\<close> gives as an invalid one; \<open>compileRoute\<close> returns a
  matcher for it, with no parameter, that accepts the literal path only. The lemma
  \<open>compileRoute_fails_iff\<close> above shows that no malformed name is ever rejected: apart
  from the syntax error of the \<open>RegExp\<close> constructor, which is not modelled,
  compilation fails for an unsafe path or a repeated name and for nothing else.
\<close>

theorem compileRoute_accepts_malformed_name:
  "compileRoute (js ''/users/:123invalid'')
     = Inr \<lparr> regex = js ''^/users/:123invalid$'', params = [] \<rparr>"
  by (simp add: compileRoute_def validatePathSafety_def extractParamNames_def toLowerCase_def
      lowerUnit_def isNameStart_def js_def)

lemma compileRoute_dash_name:
  "compileRoute (js ''/users/:user-id'')
     = Inr \<lparr> regex = js ''^/users/'' @ SAFE_PATH_PARAM_PATTERN @ js ''-id$'',
             params = [js ''user''] \<rparr>"
  by (simp add: compileRoute_def validatePathSafety_def extractParamNames_def toLowerCase_def
      lowerUnit_def isNameStart_def isNameChar_def js_def)

lemma compileRoute_duplicate:
  "compileRoute (js ''/a/:id/b/:id'') = Inl (js ''Duplicate parameter name: id'')"
  by (simp add: compileRoute_def validatePathSafety_def extractParamNames_def toLowerCase_def
      lowerUnit_def isNameStart_def isNameChar_def js_def)



section \<open>Properties of sanitizePathParam\<close>

lemma sanitizePathParam_cases:
  "sanitizePathParam v =
     (if length v > 200
        then Inl (js ''Invalid path parameter: exceeds maximum length of 200 characters'')
      else if (includesStr v (js ''%2e%2e'') \<or> includesStr v (js ''%2E%2e'') \<or>
     includesStr v (js ''%2e%2E'') \<or> includesStr v (js ''%2E%2E'') \<or>
     includesStr v (js ''%2f'') \<or> includesStr v (js ''%2F'') \<or>
     includesStr v (js ''%5c'') \<or> includesStr v (js ''%5C''))
        then Inl (js ''Invalid path parameter: encoded traversal detected'')
      else
        (case decodeURIComponent v of
           None \<Rightarrow> Inl (js ''Invalid URL encoding in path parameter'')
         | Some decoded \<Rightarrow>
             if length decoded > 200
               then Inl (js ''Invalid path parameter: decoded value exceeds maximum length of 200 characters'')
             else if includesStr decoded (js ''..'') \<or> 0x2F \<in> set decoded \<or> 0x5C \<in> set decoded
               then Inl (js ''Invalid path parameter: path traversal detected'')
             else if 0 \<in> set decoded
               then Inl (js ''Invalid path parameter: null byte detected'')
             else Inr decoded))"
proof -
  have a: "includesStr d (js ''/'') = (0x2F \<in> set d)" for d :: jsstring
    using includesStr_unit [of d "0x2F"] by (simp add: js_def)
  have b: "includesStr d (js [CHR 0x5C]) = (0x5C \<in> set d)" for d :: jsstring
    using includesStr_unit [of d "0x5C"] by (simp add: js_def)
  show ?thesis
    unfolding sanitizePathParam_def MAX_PATH_PARAM_LENGTH_def lowered_includes_2e2e
      lowered_includes_2f lowered_includes_5c a b includesStr_unit
    by (simp only: disj_assoc)
qed

text \<open>
  Claim C6. \<open>sanitizePathParam\<close> throws exactly when the raw value has more than 200
  code units, or contains \<open>%2e%2e\<close>, \<open>%2f\<close> or \<open>%5c\<close> in any letter case, or cannot be
  percent-decoded, or its decoded value has more than 200 code units or contains \<open>..\<close>,
  a slash, a backslash or NUL. A value of more than 200 code units always gets the
  length error, whatever decoding would have done with it.
\<close>

theorem sanitizePathParam_fails_iff:
  "((\<exists>message. sanitizePathParam v = Inl message) \<longleftrightarrow>
      length v > 200 \<or>
      includesStr v (js ''%2e%2e'') \<or> includesStr v (js ''%2E%2e'') \<or>
      includesStr v (js ''%2e%2E'') \<or> includesStr v (js ''%2E%2E'') \<or>
      includesStr v (js ''%2f'') \<or> includesStr v (js ''%2F'') \<or>
      includesStr v (js ''%5c'') \<or> includesStr v (js ''%5C'') \<or>
      decodeURIComponent v = None \<or>
      (\<exists>decoded. decodeURIComponent v = Some decoded \<and>
         (length decoded > 200 \<or> includesStr decoded (js ''..'') \<or>
          0x2F \<in> set decoded \<or> 0x5C \<in> set decoded \<or> 0 \<in> set decoded))) \<and>
   (length v > 200 \<longrightarrow>
      sanitizePathParam v
        = Inl (js ''Invalid path parameter: exceeds maximum length of 200 characters''))"
proof (intro conjI impI)
  show "(\<exists>message. sanitizePathParam v = Inl message) \<longleftrightarrow>
      length v > 200 \<or>
      includesStr v (js ''%2e%2e'') \<or> includesStr v (js ''%2E%2e'') \<or>
      includesStr v (js ''%2e%2E'') \<or> includesStr v (js ''%2E%2E'') \<or>
      includesStr v (js ''%2f'') \<or> includesStr v (js ''%2F'') \<or>
      includesStr v (js ''%5c'') \<or> includesStr v (js ''%5C'') \<or>
      decodeURIComponent v = None \<or>
      (\<exists>decoded. decodeURIComponent v = Some decoded \<and>
         (length decoded > 200 \<or> includesStr decoded (js ''..'') \<or>
          0x2F \<in> set decoded \<or> 0x5C \<in> set decoded \<or> 0 \<in> set decoded))"
    (is "?L \<longleftrightarrow> ?R")
  proof -
    have R: "?R \<longleftrightarrow> length v > 200 \<or> (includesStr v (js ''%2e%2e'') \<or> includesStr v (js ''%2E%2e'') \<or>
     includesStr v (js ''%2e%2E'') \<or> includesStr v (js ''%2E%2E'') \<or>
     includesStr v (js ''%2f'') \<or> includesStr v (js ''%2F'') \<or>
     includesStr v (js ''%5c'') \<or> includesStr v (js ''%5C'')) \<or> decodeURIComponent v = None \<or>
      (\<exists>decoded. decodeURIComponent v = Some decoded \<and>
         (length decoded > 200 \<or> includesStr decoded (js ''..'') \<or>
          0x2F \<in> set decoded \<or> 0x5C \<in> set decoded \<or> 0 \<in> set decoded))"
      by (simp only: disj_assoc)
    show ?thesis
      unfolding R sanitizePathParam_cases
      by (cases "decodeURIComponent v") auto
  qed
next
  assume "length v > 200"
  then show "sanitizePathParam v
        = Inl (js ''Invalid path parameter: exceeds maximum length of 200 characters'')"
    by (simp add: sanitizePathParam_def MAX_PATH_PARAM_LENGTH_def)
qed


theorem sanitizePathParam_fails_iff_witness:
  "length (replicate 201 (0x25 :: 16 word)) > 200 \<and>
   decodeURIComponent (replicate 201 0x25) = None \<and>
   sanitizePathParam (replicate 201 0x25)
     = Inl (js ''Invalid path parameter: exceeds maximum length of 200 characters'')"
proof -
  have l: "length (replicate 201 (0x25 :: 16 word)) > 200" by simp
  have "replicate 201 (0x25 :: 16 word) = 0x25 # 0x25 # 0x25 # replicate 198 0x25"
    by (simp add: numeral_eq_Suc)
  then have d: "decodeURIComponent (replicate 201 0x25) = None"
    by (simp add: hexVal_def)
  from sanitizePathParam_fails_iff [of "replicate 201 0x25"] l d show ?thesis by blast
qed

lemma sanitizePathParam_examples:
  "sanitizePathParam (js ''abc%20def'') = Inr (js ''abc def'')"
  "sanitizePathParam (js ''a%2Fb'') = Inl (js ''Invalid path parameter: encoded traversal detected'')"
  "sanitizePathParam (js ''a%2e.b'') = Inl (js ''Invalid path parameter: path traversal detected'')"
  "sanitizePathParam (js ''%zz'') = Inl (js ''Invalid URL encoding in path parameter'')"
  "sanitizePathParam (js ''a%00b'') = Inl (js ''Invalid path parameter: null byte detected'')"
  by (simp_all add: sanitizePathParam_def MAX_PATH_PARAM_LENGTH_def toLowerCase_def lowerUnit_def
      hexVal_def js_def)



section \<open>Properties of the body validation\<close>

lemma status_unsupportedMediaType [simp]: "status unsupportedMediaType = 415"
  by (simp add: unsupportedMediaType_def newResponse_def Let_def)

lemma status_validationFailed [simp]: "status (validationFailed errors) = 400"
  by (simp add: validationFailed_def newResponse_def Let_def)

lemma parseAndValidate_not_415:
  "parseAndValidate req contentType sch = Inl (ThrownResponse r) \<Longrightarrow> status r = 400"
  by (auto simp: parseAndValidate_def split: sum.splits)

lemma find_None_includes:
  "find (\<lambda>(supportedType, typeSchema). includesStr ct supportedType) m = None
     \<longleftrightarrow> (\<forall>supportedType \<in> fst ` set m. \<not> includesStr ct supportedType)"
  by (auto simp: find_None_iff)

text \<open>
  Claim C9. \<open>parseAndValidateBody\<close> throws a response of status 415 in exactly two
  cases: the body schema is a mapping from content types to schemas and no key of it is
  contained in the \<open>Content-Type\<close> of the request; or the body schema is a single
  schema, a list of supported content types is given and not empty, and no entry of it
  is contained in the \<open>Content-Type\<close>. Containment is \<open>includes\<close>, which compares code
  units and so is case-sensitive.
\<close>

theorem parseAndValidateBody_415_iff:
  "(\<exists>r. parseAndValidateBody req bodySch contentType supportedContentTypes
            = Inl (ThrownResponse r) \<and> status r = 415) \<longleftrightarrow>
     (case bodySch of
        MultiSchema contentTypeSchemas \<Rightarrow>
          \<forall>supportedType \<in> fst ` set contentTypeSchemas. \<not> includesStr contentType supportedType
      | SingleSchema sch \<Rightarrow>
          \<exists>types. supportedContentTypes = Some types \<and> types \<noteq> [] \<and>
            (\<forall>supportedType \<in> set types. \<not> includesStr contentType supportedType))"
proof (cases bodySch)
  case (SingleSchema sch)
  show ?thesis
  proof (cases supportedContentTypes)
    case None
    with SingleSchema show ?thesis
      using parseAndValidate_not_415 [of req contentType sch]
      by (auto simp: parseAndValidateBody_def)
  next
    case (Some types)
    with SingleSchema show ?thesis
      using parseAndValidate_not_415 [of req contentType sch]
      by (auto simp: parseAndValidateBody_def list_ex_iff)
  qed
next
  case (MultiSchema m)
  show ?thesis
  proof (cases "find (\<lambda>(supportedType, typeSchema). includesStr contentType supportedType) m")
    case None
    then have "\<forall>supportedType \<in> fst ` set m. \<not> includesStr contentType supportedType"
      by (simp only: find_None_includes)
    with None MultiSchema show ?thesis
      by (simp add: parseAndValidateBody_def)
  next
    case (Some hit)
    obtain t s where hit: "hit = (t, s)" by (cases hit)
    from Some have "\<not> (\<forall>supportedType \<in> fst ` set m. \<not> includesStr contentType supportedType)"
      using find_None_includes [of contentType m] by simp
    with Some hit MultiSchema show ?thesis
      using parseAndValidate_not_415 [of req contentType s]
      by (auto simp: parseAndValidateBody_def)
  qed
qed


theorem parseAndValidateBody_415_iff_witness:
  "(\<exists>r. parseAndValidateBody
          \<lparr> readJson = Inl (js ''Unexpected token''), readText = js ''hello'',
            readUrlEncoded = [], readFormData = Inl (js ''not a form'') \<rparr>
          (MultiSchema [(js ''application/json'', Inr)]) (js ''text/plain'') None
        = Inl (ThrownResponse r) \<and> status r = 415) \<and>
   \<not> (\<exists>r. parseAndValidateBody
          \<lparr> readJson = Inl (js ''Unexpected token''), readText = js ''hello'',
            readUrlEncoded = [], readFormData = Inl (js ''not a form'') \<rparr>
          (SingleSchema Inr) (js ''text/plain'') (Some [])
        = Inl (ThrownResponse r) \<and> status r = 415)"
proof -
  let ?req = "\<lparr> readJson = Inl (js ''Unexpected token''), readText = js ''hello'',
            readUrlEncoded = [], readFormData = Inl (js ''not a form'') \<rparr>"
  have "\<not> includesStr (js ''text/plain'') (js ''application/json'')"
    by (simp add: js_def)
  then have a: "\<exists>r. parseAndValidateBody ?req (MultiSchema [(js ''application/json'', Inr)])
                    (js ''text/plain'') None = Inl (ThrownResponse r) \<and> status r = 415"
    using parseAndValidateBody_415_iff
      [of ?req "MultiSchema [(js ''application/json'', Inr)]" "js ''text/plain''" None]
    by simp
  have b: "\<not> (\<exists>r. parseAndValidateBody ?req (SingleSchema Inr) (js ''text/plain'') (Some [])
                    = Inl (ThrownResponse r) \<and> status r = 415)"
    using parseAndValidateBody_415_iff
      [of ?req "SingleSchema Inr" "js ''text/plain''" "Some []"]
    by simp
  from a b show ?thesis by blast
qed



section \<open>Properties of the middleware composer\<close>

lemma newPromise_index [simp]: "index (snd (newPromise p m)) = index m"
  by (simp add: newPromise_def)

lemma settle_index [simp]: "index (settle r out m) = index m"
  by (simp add: settle_def split: promise.splits)

lemma awaitPromise_index [simp]: "index (awaitPromise q fr m) = index m"
  by (simp add: awaitPromise_def split: promise.splits)

lemma runSync_index_mono:
  assumes "\<And>m1 called m2. call m1 = Some (called, m2) \<Longrightarrow> index m1 \<le> index m2"
  shows "runSync p call ref r m = Some m' \<Longrightarrow> index m \<le> index m'"
proof (induction p arbitrary: m)
  case (Return out)
  then show ?case by auto
next
  case (Act f p)
  from Act.IH [of "m \<lparr> world := f (world m) \<rparr>"] Act.prems show ?case by simp
next
  case (Read g)
  from Read.IH [of "g (world m)" m] Read.prems show ?case by simp
next
  case (Start k)
  from Start.prems obtain called m1 where c: "call m = Some (called, m1)"
    and e: "runSync (k called) call ref r m1 = Some m'"
    by (auto split: option.splits)
  from assms [OF c] have "index m \<le> index m1" .
  moreover from Start.IH [of "k called" m1] e have "index m1 \<le> index m'" by simp
  ultimately show ?case by simp
next
  case (Await q k)
  then show ?case by auto
qed

lemma asyncCall_index_mono:
  assumes "\<And>m1 called m2. call m1 = Some (called, m2) \<Longrightarrow> index m1 \<le> index m2"
    and "asyncCall p call ref m = Some (called, m')"
  shows "index m \<le> index m'"
proof -
  from assms(2) have "runSync p call ref (fst (newPromise (Pending []) m))
      (snd (newPromise (Pending []) m)) = Some m'"
    by (auto simp: asyncCall_def Let_def)
  from runSync_index_mono [OF assms(1) this] show ?thesis by simp
qed

lemma dispatch_index:
  "dispatch fuel mws lastM ctx i m = Some (called, m') \<Longrightarrow> i \<le> index m' \<and> index m \<le> index m'"
proof (induction fuel arbitrary: i m called m')
  case 0
  then show ?case by simp
next
  case (Suc fuel)
  show ?case
  proof (cases "i \<le> index m")
    case True
    with Suc.prems show ?thesis by (auto simp: Let_def)
  next
    case False
    let ?p = "if i < int (length mws) then (mws ! nat i) ctx else lastM (Some ctx)"
    from Suc.prems False
    have e: "asyncCall ?p (dispatch fuel mws lastM ctx (i + 1)) (DispatchAt (i + 1))
               (m \<lparr> index := i \<rparr>) = Some (called, m')"
      by simp
    have "index (m \<lparr> index := i \<rparr>) \<le> index m'"
    proof (rule asyncCall_index_mono [OF _ e])
      fix m1 c m2
      assume "dispatch fuel mws lastM ctx (i + 1) m1 = Some (c, m2)"
      from Suc.IH [OF this] show "index m1 \<le> index m2" by simp
    qed
    with False show ?thesis by simp
  qed
qed

lemma callOf_index_mono:
  assumes "callOf fuel mws lastM ctx ref m = Some (called, m')"
  shows "index m \<le> index m'"
proof (cases ref)
  case (DispatchAt i)
  with assms dispatch_index [of fuel mws lastM ctx i m called m'] show ?thesis
    by (simp add: callOf_def)
next
  case CallLast
  with assms have "asyncCall (lastM None) notCallable NotCallable m = Some (called, m')"
    by (simp add: callOf_def)
  then show ?thesis
    by (rule asyncCall_index_mono [rotated]) (auto simp: notCallable_def)
next
  case NotCallable
  with assms show ?thesis by (auto simp: callOf_def notCallable_def)
qed

lemma runJobs_index_mono:
  "runJobs fuel mws lastM ctx m = Some m' \<Longrightarrow> index m \<le> index m'"
proof (induction fuel arbitrary: m)
  case 0
  then show ?case by (auto split: if_splits)
next
  case (Suc fuel)
  show ?case
  proof (cases "jobs m")
    case Nil
    with Suc.prems show ?thesis by simp
  next
    case (Cons job rest)
    obtain ref r k where fr: "fst job = Frame ref r k" by (cases "fst job")
    from Suc.prems Cons fr obtain m1 where
      s: "runSync (k (snd job)) (callOf fuel mws lastM ctx ref) ref r (m \<lparr> jobs := rest \<rparr>) = Some m1"
      and j: "runJobs fuel mws lastM ctx m1 = Some m'"
      by (auto split: option.splits)
    have "index (m \<lparr> jobs := rest \<rparr>) \<le> index m1"
      by (rule runSync_index_mono [OF _ s]) (rule callOf_index_mono)
    moreover from Suc.IH [OF j] have "index m1 \<le> index m'" .
    ultimately show ?thesis by simp
  qed
qed

lemma dispatch_second_call:
  assumes "dispatch fuel mws lastM ctx (i + 1) m = Some (called, m')"
    and "index m' \<le> index m''"
  shows "dispatch (Suc fuel') mws lastM ctx (i + 1) m''
           = Some (Inr (length (promises m'')),
                   m'' \<lparr> promises := promises m'' @
                          [Settled (Inl (ThrownError (js ''next() called multiple times'')))] \<rparr>)"
proof -
  from dispatch_index [OF assms(1)] have "i + 1 \<le> index m'" by simp
  with assms(2) show ?thesis by (simp add: newPromise_def Let_def)
qed

lemma compose_two_around:
  assumes "3 \<le> fuel"
  shows "composeMiddlewares fuel [around bA aA, around bB aB] ctx (terminal h) w =
     Some (let w1 = bA ctx w;
               w2 = bB ctx w1;
               r3 = h (Some ctx) w2;
               r4 = aB ctx (fst r3) (snd r3);
               r5 = aA ctx (fst r4) (snd r4)
           in (Some (fst r5), snd r5))"
proof -
  from assms obtain k where "fuel = 3 + k" by (auto simp: le_iff_add)
  then have fuel: "fuel = Suc (Suc (Suc k))" by simp
  show ?thesis
    by (simp add: fuel composeMiddlewares_def around_def terminal_def finish_def Next_def
        asyncCall_def newPromise_def settle_def awaitPromise_def callOf_def promiseOutcome_def
        Let_def)
qed


lemmas machine_eval_defs =
  composeMiddlewares_def around_def terminal_def finish_def Next_def callsNextTwice_def
  callsNextWhilePending_def asyncCall_def newPromise_def settle_def awaitPromise_def callOf_def
  promiseOutcome_def Let_def

lemma compose_next_twice:
  assumes "3 \<le> fuel"
  shows "composeMiddlewares fuel [callsNextTwice] ctx (terminal h) w =
     Some (Some (Inl (ThrownError (js ''next() called multiple times''))),
           snd (h (Some ctx) w))"
proof -
  from assms obtain k where "fuel = 3 + k" by (auto simp: le_iff_add)
  then have fuel: "fuel = Suc (Suc (Suc k))" by simp
  show ?thesis
    by (simp add: fuel machine_eval_defs)
qed

lemma compose_next_while_pending:
  assumes "3 \<le> fuel"
  shows "composeMiddlewares fuel [callsNextWhilePending, around bB aB] ctx (terminal h) w =
     Some (let r3 = h (Some ctx) (bB ctx w);
               r4 = aB ctx (fst r3) (snd r3)
           in (Some (Inl (ThrownError (js ''next() called multiple times''))), snd r4))"
proof -
  from assms obtain k where "fuel = 3 + k" by (auto simp: le_iff_add)
  then have fuel: "fuel = Suc (Suc (Suc k))" by simp
  show ?thesis
    by (simp add: fuel machine_eval_defs)
qed

text \<open>
  Claim C2. Middlewares composed by \<^verbatim>\<open>composeMiddlewares\<close> run in the order of the list, each
  wrapping the ones after it and the handler: with two middlewares the effects are A-before,
  B-before, handler, B-after, A-after, and the outcome is what the first middleware returns (first
  conjunct). Within one invocation a second call of the same \<^verbatim>\<open>next\<close> is refused: once
  the first call \<^verbatim>\<open>dispatch(i + 1)\<close> has handed back its promise --- settled or still pending, the
  caller need not have awaited it --- every call \<^verbatim>\<open>dispatch(i + 1)\<close> made in a state whose counter
  is at least the one the first call left (the counter never decreases, lemmas
  \<open>dispatch_index\<close>, \<open>runSync_index_mono\<close> and \<open>runJobs_index_mono\<close>) returns a
  promise rejected with the error \<^verbatim>\<open>next() called multiple times\<close> and changes nothing else: no
  middleware or handler runs, the world, the counter, the other promises and the job queue are as
  before (second conjunct). The last two conjuncts are complete invocations, for every handler and
  every effect of the middlewares: a first middleware that awaits \<^verbatim>\<open>next()\<close> twice, and one that
  calls \<^verbatim>\<open>next()\<close> a second time while the promise of the first call is still pending, both end
  with that rejection, and the handler and the second middleware have run once.
\<close>

theorem composeMiddlewares_order_and_single_next:
  "(3 \<le> fuel \<longrightarrow>
      composeMiddlewares fuel [around bA aA, around bB aB] ctx (terminal h) w =
        Some (let w1 = bA ctx w;
                  w2 = bB ctx w1;
                  r3 = h (Some ctx) w2;
                  r4 = aB ctx (fst r3) (snd r3);
                  r5 = aA ctx (fst r4) (snd r4)
              in (Some (fst r5), snd r5))) \<and>
   (dispatch fuel1 mws lastM ctx (i + 1) m = Some (called, m') \<and> index m' \<le> index m'' \<longrightarrow>
      dispatch (Suc fuel2) mws lastM ctx (i + 1) m''
        = Some (Inr (length (promises m'')),
                m'' \<lparr> promises := promises m'' @
                       [Settled (Inl (ThrownError (js ''next() called multiple times'')))] \<rparr>)) \<and>
   (3 \<le> fuel \<longrightarrow>
      composeMiddlewares fuel [callsNextTwice] ctx (terminal h) w =
        Some (Some (Inl (ThrownError (js ''next() called multiple times''))),
              snd (h (Some ctx) w))) \<and>
   (3 \<le> fuel \<longrightarrow>
      composeMiddlewares fuel [callsNextWhilePending, around bB aB] ctx (terminal h) w =
        Some (let r3 = h (Some ctx) (bB ctx w);
                  r4 = aB ctx (fst r3) (snd r3)
              in (Some (Inl (ThrownError (js ''next() called multiple times''))), snd r4)))"
  using compose_two_around [of fuel bA aA bB aB ctx h w]
    dispatch_second_call [of fuel1 mws lastM ctx i m called m' m'' fuel2]
    compose_next_twice [of fuel ctx h w]
    compose_next_while_pending [of fuel bB aB ctx h w]
  by blast

theorem composeMiddlewares_order_and_single_next_witness:
  "composeMiddlewares 3
       [around (logs ''A-before'') (logsAfter ''A-after''),
        around (logs ''B-before'') (logsAfter ''B-after'')] () (terminal logsHandler) []
     = Some (Some (Inr (newResponse None 204 [])),
             [''A-before'', ''B-before'', ''H'', ''B-after'', ''A-after'']) \<and>
   composeMiddlewares 3 [callsNextTwice] () (terminal logsHandler) []
     = Some (Some (Inl (ThrownError (js ''next() called multiple times''))), [''H'']) \<and>
   composeMiddlewares 3
       [callsNextWhilePending, around (logs ''B-before'') (logsAfter ''B-after'')] ()
       (terminal logsHandler) []
     = Some (Some (Inl (ThrownError (js ''next() called multiple times''))),
             [''B-before'', ''H'', ''B-after'']) \<and>
   (\<exists>m'. dispatch 2 [callsNextWhilePending, around (logs ''B-before'') (logsAfter ''B-after'')]
            (terminal logsHandler) () (0 + 1)
            \<lparr> index = 0, world = [], promises = [Pending []], jobs = [] \<rparr> = Some (Inr 1, m') \<and>
         promiseOutcome 1 m' = None \<and> index m' = 2 \<and> world m' = [''B-before'', ''H''] \<and>
         dispatch (Suc 0) [callsNextWhilePending, around (logs ''B-before'') (logsAfter ''B-after'')]
            (terminal logsHandler) () (0 + 1) m'
           = Some (Inr (length (promises m')),
                   m' \<lparr> promises := promises m' @
                          [Settled (Inl (ThrownError (js ''next() called multiple times'')))] \<rparr>))"
proof -
  let ?mws = "[callsNextWhilePending, around (logs ''B-before'') (logsAfter ''B-after'')]"
  let ?m = "\<lparr> index = 0, world = [] :: string list, promises = [Pending []], jobs = [] \<rparr>"
  have "\<exists>m'. dispatch 2 ?mws (terminal logsHandler) () (0 + 1) ?m = Some (Inr 1, m') \<and>
         promiseOutcome 1 m' = None \<and> index m' = 2 \<and> world m' = [''B-before'', ''H'']"
    by (simp add: numeral_2_eq_2 machine_eval_defs logs_def logsAfter_def logsHandler_def)
  then obtain m' where first: "dispatch 2 ?mws (terminal logsHandler) () (0 + 1) ?m = Some (Inr 1, m')"
    and pending: "promiseOutcome 1 m' = None" and idx: "index m' = 2"
    and wld: "world m' = [''B-before'', ''H'']"
    by blast
  note inst = composeMiddlewares_order_and_single_next
    [of 3 "logs ''A-before''" "logsAfter ''A-after''" "logs ''B-before''" "logsAfter ''B-after''"
        "()" logsHandler "[]" 2 ?mws "terminal logsHandler" 0 ?m "Inr 1" m' m' 0]
  from inst first
  have second: "dispatch (Suc 0) ?mws (terminal logsHandler) () (0 + 1) m'
           = Some (Inr (length (promises m')),
                   m' \<lparr> promises := promises m' @
                          [Settled (Inl (ThrownError (js ''next() called multiple times'')))] \<rparr>)"
    by simp
  from inst have runs:
    "composeMiddlewares 3
       [around (logs ''A-before'') (logsAfter ''A-after''),
        around (logs ''B-before'') (logsAfter ''B-after'')] () (terminal logsHandler) []
     = Some (Some (Inr (newResponse None 204 [])),
             [''A-before'', ''B-before'', ''H'', ''B-after'', ''A-after''])"
    "composeMiddlewares 3 [callsNextTwice] () (terminal logsHandler) []
     = Some (Some (Inl (ThrownError (js ''next() called multiple times''))), [''H''])"
    "composeMiddlewares 3 ?mws () (terminal logsHandler) []
     = Some (Some (Inl (ThrownError (js ''next() called multiple times''))),
             [''B-before'', ''H'', ''B-after''])"
    by (simp_all add: logs_def logsAfter_def logsHandler_def Let_def)
  from runs first pending idx wld second show ?thesis by blast
qed

section \<open>Properties of the request handler\<close>

lemmas header_eval_defs =
  newResponse_def newHeaders_def headersAppend_def headersGet_def headersSet_def
  toLowerCase_def lowerUnit_def js_def Let_def

lemma notFoundResponse_default:
  "notFoundResponse (defaultCorsOf ms) =
     \<lparr> status = 404,
       headers = [(js ''access-control-allow-origin'', js ''*''),
                  (js ''access-control-allow-methods'', joinStr (js '', '') ms),
                  (js ''access-control-allow-headers'',
                     js ''authorization, x-client-info, apikey, content-type''),
                  (js ''access-control-max-age'', js ''86400''),
                  (js ''content-type'', js ''text/plain;charset=UTF-8'')],
       body = Some (JObj [(js ''error'', JStr (js ''Not Found''))]) \<rparr>"
  by (simp add: notFoundResponse_def defaultCorsOf_def header_eval_defs)

lemma notFoundResponse_headers:
  "headersGet (headers (notFoundResponse (defaultCorsOf ms))) (js ''X-Content-Type-Options'') = None"
  "headersGet (headers (notFoundResponse (defaultCorsOf ms))) (js ''Content-Type'')
     = Some (js ''text/plain;charset=UTF-8'')"
  unfolding notFoundResponse_default
  by (simp_all add: headersGet_def toLowerCase_def lowerUnit_def js_def)

lemma matchLoop_none:
  "\<forall>route \<in> set rs. rx (regex (compiled route)) p = None \<Longrightarrow> matchLoop rx m p rs = None"
  by (induction rs) auto


lemma indexByMethod_step_subset:
  assumes "\<forall>k rs. map_of acc k = Some rs \<longrightarrow> set rs \<subseteq> S" and "set cs \<subseteq> S"
  shows "\<forall>k rs. map_of (fold (\<lambda>route m.
             case map_of m (routeMethod route) of
               None \<Rightarrow> m @ [(routeMethod route, [route])]
             | Some rs \<Rightarrow> objSet m (routeMethod route) (rs @ [route])) cs acc) k = Some rs
           \<longrightarrow> set rs \<subseteq> S"
  using assms
proof (induction cs arbitrary: acc)
  case Nil
  then show ?case by simp
next
  case (Cons c cs)
  let ?acc' = "case map_of acc (routeMethod c) of
               None \<Rightarrow> acc @ [(routeMethod c, [c])]
             | Some rs \<Rightarrow> objSet acc (routeMethod c) (rs @ [c])"
  have "\<forall>k rs. map_of ?acc' k = Some rs \<longrightarrow> set rs \<subseteq> S"
  proof (cases "map_of acc (routeMethod c)")
    case None
    with Cons.prems show ?thesis
      by (auto simp: map_of_append split: option.splits if_splits)
  next
    case (Some old)
    with Cons.prems have "set old \<subseteq> S" by blast
    with Some Cons.prems show ?thesis
      by (auto simp: map_of_objSet split: if_splits)
  qed
  moreover from Cons.prems have "set cs \<subseteq> S" by simp
  ultimately show ?case using Cons.IH [of ?acc'] by simp
qed

lemma indexByMethod_subset:
  "map_of (indexByMethod cs) m = Some rs \<Longrightarrow> set rs \<subseteq> set cs"
  using indexByMethod_step_subset [of "[]" "set cs" cs]
  by (simp add: indexByMethod_def)

lemma handlerRouting_no_match:
  assumes "\<forall>route \<in> set cs. rx (regex (compiled route)) (pathname req) = None"
  shows "handlerRouting rx \<lparr> routes = cs, routesByMethod = indexByMethod cs \<rparr> req
           = Responds (notFoundResponse (defaultCorsOf []))"
proof -
  let ?data = "\<lparr> routes = cs, routesByMethod = indexByMethod cs \<rparr>"
  have none: "matchLoop rx m (pathname req) rs = None" if "set rs \<subseteq> set cs" for m rs
    using that assms by (intro matchLoop_none) blast
  have m: "matchRoute rx (reqMethod req) (pathname req) ?data = None"
    by (auto simp: matchRoute_def none indexByMethod_subset split: option.splits)
  have f: "findMatchingRoutes rx (pathname req) ?data = []"
    using assms by (simp add: findMatchingRoutes_def filter_empty_conv)
  have a: "getAllowedMethods rx (pathname req) ?data = []"
    by (simp add: getAllowedMethods_def f)
  show ?thesis
    by (simp add: handlerRouting_def m a Let_def)
qed


lemma exampleTable_compiled: "compileRoutes (js ''/api'') [exampleRoute] = Inr exampleTable"
  by (simp add: compileRoutes_def exampleRoute_def exampleTable_def stripTrailingSlash_def
      compileRoute_def validatePathSafety_def extractParamNames_def toLowerCase_def lowerUnit_def
      isNameStart_def isNameChar_def indexByMethod_def js_def Let_def)

lemma example_no_match:
  "plainEngine (js ''^/api/users/'' @ SAFE_PATH_PARAM_PATTERN @ js ''$'') (js ''/api/posts'') = None"
  by (simp add: plainEngine_def SAFE_PATH_PARAM_PATTERN_def isPlainUnit_def isGroupUnit_def js_def)

lemma createErrorResponse_headers:
  "headersGet (headers (createErrorResponse nfkc message st cause)) (js ''Content-Type'')
     = Some (js ''application/json'')"
  "headersGet (headers (createErrorResponse nfkc message st cause)) (js ''X-Content-Type-Options'')
     = Some (js ''nosniff'')"
  by (simp_all add: createErrorResponse_def header_eval_defs del: sanitizeErrorMessage.simps
      split: option.splits)

lemma handlerSanitize_400_headers:
  assumes "handlerSanitize nfkc (defaultCorsOf ms) ps = Responds r"
  shows "status r = 400 \<and>
         headersGet (headers r) (js ''Content-Type'') = Some (js ''application/json'') \<and>
         headersGet (headers r) (js ''X-Content-Type-Options'') = None"
proof -
  from assms obtain message where
    r: "r = newResponse
            (Some (JObj [(js ''error'', JStr (sanitizeErrorMessage nfkc (JStr message)))]))
            400 (objSet (defaultCorsOf ms) (js ''Content-Type'') (js ''application/json''))"
    by (auto simp: handlerSanitize_def split: sum.splits)
  show ?thesis
    unfolding r
    by (simp add: defaultCorsOf_def header_eval_defs del: sanitizeErrorMessage.simps)
qed

lemma unsupportedMediaType_headers:
  "headersGet (headers unsupportedMediaType) (js ''Content-Type'') = Some (js ''application/json'')"
  "headersGet (headers unsupportedMediaType) (js ''X-Content-Type-Options'') = None"
  by (simp_all add: unsupportedMediaType_def header_eval_defs)

lemma handlerBody_headers:
  assumes "handlerBody req ct bodySch dis supported (defaultCorsOf ms) = Responds r"
  shows "(status r = 400 \<or> status r = 415) \<and>
         headersGet (headers r) (js ''Content-Type'') = Some (js ''application/json'') \<and>
         headersGet (headers r) (js ''X-Content-Type-Options'') = None"
proof -
  let ?ct = "case ct of Some c \<Rightarrow> c | None \<Rightarrow> js ''application/json''"
  from assms obtain sch where sch: "bodySch = Some sch" and nd: "\<not> dis"
    by (auto simp: handlerBody_def Let_def split: if_splits)
  show ?thesis
  proof (cases "parseAndValidateBody req sch ?ct supported")
    case (Inr b)
    with assms sch nd show ?thesis by (simp add: handlerBody_def Let_def)
  next
    case (Inl th)
    show ?thesis
    proof (cases th)
      case (ThrownError message)
      with Inl assms sch nd
      have "r = newResponse (Some (JObj [(js ''error'', JStr (js ''Body validation failed''))]))
               400 (objSet (defaultCorsOf ms) (js ''Content-Type'') (js ''application/json''))"
        by (simp add: handlerBody_def Let_def)
      then show ?thesis
        by (simp add: defaultCorsOf_def header_eval_defs)
    next
      case (ThrownResponse e)
      with Inl assms sch nd
      have r: "r = e \<lparr> headers := fold (\<lambda>(key, v) hs. headersSet hs key v) (defaultCorsOf ms) (headers e) \<rparr>"
        by (simp add: handlerBody_def Let_def)
      from Inl ThrownResponse
      have "e = unsupportedMediaType \<or> (\<exists>errors. e = validationFailed errors)"
        by (auto simp: parseAndValidateBody_def parseAndValidate_def
            split: bodySchema.splits option.splits sum.splits if_splits prod.splits)
      then show ?thesis
        unfolding r
        by (auto simp: unsupportedMediaType_def validationFailed_def defaultCorsOf_def
            header_eval_defs)
    qed
  qed
qed


lemma handlerSanitize_example:
  "handlerSanitize nfkc (defaultCorsOf [js ''GET'', js ''OPTIONS'']) [(js ''id'', js ''..'')]
     = Responds (newResponse
         (Some (JObj [(js ''error'', JStr (js ''Invalid path parameter: path traversal detected''))]))
         400
         (objSet (defaultCorsOf [js ''GET'', js ''OPTIONS'']) (js ''Content-Type'')
            (js ''application/json'')))"
proof -
  have s: "sanitizePathParam (js ''..'') = Inl (js ''Invalid path parameter: path traversal detected'')"
    by (simp add: sanitizePathParam_def MAX_PATH_PARAM_LENGTH_def toLowerCase_def lowerUnit_def
      hexVal_def js_def)
  have m: "sanitizeErrorMessage nfkc (JStr (js ''Invalid path parameter: path traversal detected''))
      = js ''Invalid path parameter: path traversal detected''"
    by (simp add: sanitize_eval_defs)
  show ?thesis
    by (simp add: handlerSanitize_def s m del: sanitizeErrorMessage.simps)
qed

text \<open>
  Claim C4 says that every error response of the dispatch pipeline is a JSON body with
  \<open>Content-Type: application/json\<close> and \<open>X-Content-Type-Options: nosniff\<close>. For the
  router with base path \<open>/api\<close> and the route \<open>GET /users/:id\<close>, the request
  \<open>GET /api/posts\<close> matches no route and \<open>handler\<close> answers 404 with the body
  \<open>{error: "Not Found"}\<close> and the default CORS headers only: the response has no
  \<open>X-Content-Type-Options\<close>, and its \<open>Content-Type\<close> is the \<open>text/plain;charset=UTF-8\<close>
  that the constructor gives a string body. (\<open>handlerRouting_no_match\<close> shows the same
  for every router and every request that matches no route; \<open>createErrorResponse_headers\<close>
  shows that the helper of \<open>http-errors.ts\<close> sets both headers.)
\<close>

theorem handler_not_found_lacks_headers:
  "compileRoutes (js ''/api'') [exampleRoute] = Inr exampleTable \<and>
   handlerRouting plainEngine exampleTable
       \<lparr> reqMethod = js ''GET'', pathname = js ''/api/posts'', originHeader = None \<rparr>
     = Responds (notFoundResponse (defaultCorsOf [])) \<and>
   status (notFoundResponse (defaultCorsOf [])) = 404 \<and>
   body (notFoundResponse (defaultCorsOf [])) = Some (JObj [(js ''error'', JStr (js ''Not Found''))]) \<and>
   headersGet (headers (notFoundResponse (defaultCorsOf []))) (js ''Content-Type'')
     = Some (js ''text/plain;charset=UTF-8'') \<and>
   headersGet (headers (notFoundResponse (defaultCorsOf []))) (js ''X-Content-Type-Options'') = None"
proof -
  let ?c = "\<lparr> routeMethod = js ''GET'', fullPath = js ''/api/users/:id'', corsHeaders = None,
                 compiled = \<lparr> regex = js ''^/api/users/'' @ SAFE_PATH_PARAM_PATTERN @ js ''$'',
                              params = [js ''id''] \<rparr> \<rparr>"
  have tbl: "exampleTable = \<lparr> routes = [?c], routesByMethod = indexByMethod [?c] \<rparr>"
    by (simp add: exampleTable_def indexByMethod_def Let_def)
  have run: "handlerRouting plainEngine exampleTable
          \<lparr> reqMethod = js ''GET'', pathname = js ''/api/posts'', originHeader = None \<rparr>
        = Responds (notFoundResponse (defaultCorsOf []))"
    unfolding tbl by (rule handlerRouting_no_match) (simp add: example_no_match)
  show ?thesis
    using exampleTable_compiled run notFoundResponse_headers [of "[]"]
    by (simp add: notFoundResponse_default)
qed



end
